theory Spec2Isabelle
  imports Complex_Main
begin

section \<open>JavaScript values used by the analyzer\<close>

text \<open>
  The analyzer computes with JavaScript numbers. A number is modelled as a finite value,
  one of the two infinities, or NaN. Finite values are exact reals: the rounding of
  IEEE doubles is not modelled, and the negative zero is identified with zero (the code
  never divides by a zero, and no comparison tells the two zeros apart).
\<close>

datatype jsnum = NaN | PInf | NInf | Fin real

text \<open>The \<^verbatim>\<open>+\<close> of two numbers.\<close>

fun js_add :: "jsnum \<Rightarrow> jsnum \<Rightarrow> jsnum" where
  "js_add NaN _ = NaN"
| "js_add _ NaN = NaN"
| "js_add PInf NInf = NaN"
| "js_add NInf PInf = NaN"
| "js_add PInf _ = PInf"
| "js_add _ PInf = PInf"
| "js_add NInf _ = NInf"
| "js_add _ NInf = NInf"
| "js_add (Fin a) (Fin b) = Fin (a + b)"

instantiation jsnum :: comm_monoid_add
begin

definition zero_jsnum :: jsnum where
  "zero_jsnum = Fin 0"

definition plus_jsnum :: "jsnum \<Rightarrow> jsnum \<Rightarrow> jsnum" where
  "plus_jsnum a b = js_add a b"

instance
proof
  fix a b c :: jsnum
  show "a + b + c = a + (b + c)"
    unfolding plus_jsnum_def by (cases a; cases b; cases c) simp_all
  show "a + b = b + a"
    unfolding plus_jsnum_def by (cases a; cases b) simp_all
  show "0 + a = a"
    unfolding plus_jsnum_def zero_jsnum_def by (cases a) simp_all
qed

end

text \<open>
  The sign of a number that is not NaN, and the infinity of a given sign; they serve
  the \<^verbatim>\<open>*\<close> and \<^verbatim>\<open>/\<close> of the infinities.
\<close>

fun js_sign :: "jsnum \<Rightarrow> int" where
  "js_sign NaN = 0"
| "js_sign PInf = 1"
| "js_sign NInf = -1"
| "js_sign (Fin a) = (if a < 0 then -1 else if a = 0 then 0 else 1)"

definition js_inf :: "int \<Rightarrow> jsnum" where
  "js_inf s = (if s < 0 then NInf else PInf)"

text \<open>The \<^verbatim>\<open>*\<close> of two numbers: an infinity times zero is NaN.\<close>

fun js_mul :: "jsnum \<Rightarrow> jsnum \<Rightarrow> jsnum" where
  "js_mul NaN _ = NaN"
| "js_mul _ NaN = NaN"
| "js_mul (Fin a) (Fin b) = Fin (a * b)"
| "js_mul a b = (if js_sign a * js_sign b = 0 then NaN else js_inf (js_sign a * js_sign b))"

text \<open>
  The \<^verbatim>\<open>/\<close> of two numbers. A finite value over an infinity is zero, an infinity
  over an infinity is NaN, zero over zero is NaN, and a non-zero finite value over zero
  is an infinity (of the dividend's sign, the zero being the positive one).
\<close>

fun js_div :: "jsnum \<Rightarrow> jsnum \<Rightarrow> jsnum" where
  "js_div NaN _ = NaN"
| "js_div _ NaN = NaN"
| "js_div (Fin a) (Fin b) =
     (if b = 0 then (if a = 0 then NaN else js_inf (js_sign (Fin a))) else Fin (a / b))"
| "js_div (Fin a) _ = Fin 0"
| "js_div a (Fin b) = js_inf (js_sign a * (if b < 0 then -1 else 1))"
| "js_div _ _ = NaN"

text \<open>The comparisons \<^verbatim>\<open>>\<close> and \<^verbatim>\<open><\<close>: false as soon as one side is NaN.\<close>

fun js_lt :: "jsnum \<Rightarrow> jsnum \<Rightarrow> bool" where
  "js_lt NaN _ = False"
| "js_lt _ NaN = False"
| "js_lt (Fin a) (Fin b) = (a < b)"
| "js_lt NInf b = (b \<noteq> NInf)"
| "js_lt a PInf = (a \<noteq> PInf)"
| "js_lt _ _ = False"

definition js_gt :: "jsnum \<Rightarrow> jsnum \<Rightarrow> bool" where
  "js_gt a b = js_lt b a"

text \<open>A number is truthy unless it is zero or NaN.\<close>

fun truthy :: "jsnum \<Rightarrow> bool" where
  "truthy NaN = False"
| "truthy (Fin a) = (a \<noteq> 0)"
| "truthy _ = True"

text \<open>\<^verbatim>\<open>isNaN\<close> on a number.\<close>

fun isNaN :: "jsnum \<Rightarrow> bool" where
  "isNaN NaN = True"
| "isNaN _ = False"

text \<open>
  A raw field is a string or a number (the interface \<^verbatim>\<open>EngagementData\<close> types the four
  numeric fields \<^verbatim>\<open>string | number\<close>), or undefined when the column is absent.
\<close>

datatype jsval = JUndefined | JString string | JNumber jsnum

text \<open>
  A \<^verbatim>\<open>Date\<close> object holds a time value (milliseconds since the epoch) or is the
  invalid date, whose time value is NaN.
\<close>

datatype jsdate = InvalidDate | ValidDate int

text \<open>The exceptions the code can raise.\<close>

datatype js_error = RangeError | TypeError

text \<open>
  The functions of the JavaScript runtime that the code calls and whose results are not
  written in the repository are parameters of the model: the conversion of a string to a
  number (\<^verbatim>\<open>Number(s)\<close>), the parsing of a date string (\<^verbatim>\<open>new Date(s)\<close>, which the
  language leaves to the implementation outside the ISO format), the ISO text of a valid
  time value, \<^verbatim>\<open>x.toFixed(1)\<close>, and the clock read by \<^verbatim>\<open>new Date()\<close>. Every theorem
  about the analyzer holds for all of them; \<open>refHost\<close> below is one instance, used to
  run the model on concrete inputs.
\<close>

record js_host =
  StringToNumber :: "string \<Rightarrow> jsnum"
  Date_parse :: "string \<Rightarrow> jsdate"
  isoFormat :: "int \<Rightarrow> string"
  toFixed1 :: "jsnum \<Rightarrow> string"
  now :: int

text \<open>\<^verbatim>\<open>Number(v)\<close>: undefined converts to NaN, a number to itself.\<close>

fun Number :: "js_host \<Rightarrow> jsval \<Rightarrow> jsnum" where
  "Number h JUndefined = NaN"
| "Number h (JString s) = StringToNumber h s"
| "Number h (JNumber n) = n"

text \<open>\<^verbatim>\<open>n || 0\<close> on a number.\<close>

definition or_zero :: "jsnum \<Rightarrow> jsnum" where
  "or_zero n = (if truthy n then n else 0)"

text \<open>\<^verbatim>\<open>d.toISOString()\<close>: a RangeError on the invalid date.\<close>

fun toISOString :: "js_host \<Rightarrow> jsdate \<Rightarrow> js_error + string" where
  "toISOString h InvalidDate = Inl RangeError"
| "toISOString h (ValidDate t) = Inr (isoFormat h t)"

section \<open>Plain objects used as dictionaries\<close>

text \<open>
  The code keeps its per-stage, per-month and per-community tables in plain objects
  (\<^verbatim>\<open>{}\<close>). Such an object is modelled by its own properties, in creation order.
  It also inherits the properties of \<^verbatim>\<open>Object.prototype\<close>: a read \<^verbatim>\<open>obj[k]\<close> of a
  name that is not an own property but is one of these yields the inherited value
  (a function, or the prototype itself for \<^verbatim>\<open>__proto__\<close>), which is truthy.
\<close>

type_synonym 'v jsobj = "(string \<times> 'v) list"

definition Object_prototype_names :: "string list" where
  "Object_prototype_names =
     [''constructor'', ''hasOwnProperty'', ''isPrototypeOf'', ''propertyIsEnumerable'',
      ''toLocaleString'', ''toString'', ''valueOf'', ''__proto__'',
      ''__defineGetter__'', ''__defineSetter__'', ''__lookupGetter__'', ''__lookupSetter__'']"

definition inherited :: "string \<Rightarrow> bool" where
  "inherited k = (k \<in> set Object_prototype_names)"

text \<open>
  The truth value of \<^verbatim>\<open>obj[k]\<close> when the own properties hold objects: an own
  property is an object, an inherited one is a function or an object, anything else is
  undefined.
\<close>

definition prop_truthy :: "'v jsobj \<Rightarrow> string \<Rightarrow> bool" where
  "prop_truthy obj k = (inherited k \<or> map_of obj k \<noteq> None)"

text \<open>
  The assignment \<^verbatim>\<open>obj[k] = v\<close>: an own property keeps its place, a new one goes last.
  Assigning to \<^verbatim>\<open>__proto__\<close> runs the inherited setter and creates no own property.
\<close>

fun obj_put :: "string \<Rightarrow> 'v \<Rightarrow> 'v jsobj \<Rightarrow> 'v jsobj" where
  "obj_put k v [] = [(k, v)]"
| "obj_put k v ((k', v') # rest) =
     (if k' = k then (k, v) # rest else (k', v') # obj_put k v rest)"

definition obj_assign :: "string \<Rightarrow> 'v \<Rightarrow> 'v jsobj \<Rightarrow> 'v jsobj" where
  "obj_assign k v obj = (if k = ''__proto__'' then obj else obj_put k v obj)"

text \<open>
  The mutation of the object read by \<^verbatim>\<open>obj[k]\<close> (\<^verbatim>\<open>const s = obj[k]; s.f += x\<close>).
  When \<open>k\<close> is an own property its value changes in place. When \<open>k\<close> is not an own
  property the object read is an inherited one, the writes land there, and the own
  properties stay as they are.
\<close>

fun obj_modify :: "string \<Rightarrow> ('v \<Rightarrow> 'v) \<Rightarrow> 'v jsobj \<Rightarrow> 'v jsobj" where
  "obj_modify k f [] = []"
| "obj_modify k f ((k', v) # rest) =
     (if k' = k then (k', f v) # rest else (k', v) # obj_modify k f rest)"

text \<open>
  \<^verbatim>\<open>Object.keys\<close> and \<^verbatim>\<open>Object.entries\<close> list the own properties whose names are
  array indices (canonical decimal integers below \<open>2^32 - 1\<close>) first, in ascending numeric
  order, and then the other names in creation order.
\<close>

definition digitVal :: "char \<Rightarrow> int option" where
  "digitVal c = (let n = (of_char c :: int) in if 48 \<le> n \<and> n \<le> 57 then Some (n - 48) else None)"

definition isDigit :: "char \<Rightarrow> bool" where
  "isDigit c = (digitVal c \<noteq> None)"

definition digitsToInt :: "string \<Rightarrow> int" where
  "digitsToInt s = foldl (\<lambda>n c. 10 * n + (case digitVal c of None \<Rightarrow> 0 | Some d \<Rightarrow> d)) 0 s"

definition isArrayIndex :: "string \<Rightarrow> bool" where
  "isArrayIndex s =
     (s \<noteq> [] \<and> list_all isDigit s \<and> (s = ''0'' \<or> hd s \<noteq> CHR ''0'') \<and> digitsToInt s < 2 ^ 32 - 1)"

definition Object_entries :: "'v jsobj \<Rightarrow> (string \<times> 'v) list" where
  "Object_entries obj =
     sort_key (\<lambda>e. digitsToInt (fst e)) (filter (\<lambda>e. isArrayIndex (fst e)) obj)
     @ filter (\<lambda>e. \<not> isArrayIndex (fst e)) obj"

text \<open>\<^verbatim>\<open>xs.reduce(f)\<close> with no initial value: a TypeError on the empty array.\<close>

definition reduce1 :: "('a \<Rightarrow> 'a \<Rightarrow> 'a) \<Rightarrow> 'a list \<Rightarrow> js_error + 'a" where
  "reduce1 f xs = (case xs of [] \<Rightarrow> Inl TypeError | x # rest \<Rightarrow> Inr (foldl f x rest))"

text \<open>\<^verbatim>\<open>[...new Set(xs)]\<close>: the distinct elements in order of first occurrence.\<close>

definition Set_add :: "'a list \<Rightarrow> 'a \<Rightarrow> 'a list" where
  "Set_add s x = (if x \<in> set s then s else s @ [x])"

definition Set_of :: "'a list \<Rightarrow> 'a list" where
  "Set_of xs = foldl Set_add [] xs"

section \<open>The analyzer's data\<close>

text \<open>
  \<^verbatim>\<open>EngagementData\<close> and \<^verbatim>\<open>ProcessedData\<close> have the same seven fields; the second
  changes the types of the tracking date and of the four numeric fields. The fields
  \<^verbatim>\<open>'Tracking Date Formatted'\<close>, \<^verbatim>\<open>'Play Time (Min)'\<close> and \<^verbatim>\<open>'Automation Stage'\<close> are
  written \<open>TrackingDateFormatted\<close>, \<open>PlayTimeMin\<close> and \<open>AutomationStage\<close>.
\<close>

record ('d, 'n) Row =
  TrackingDateFormatted :: 'd
  Invites :: 'n
  Clicks :: 'n
  Plays :: 'n
  PlayTimeMin :: 'n
  AutomationStage :: string
  Community :: string

type_synonym EngagementData = "(string, jsval) Row"

type_synonym ProcessedData = "(jsdate, jsnum) Row"

text \<open>\<^verbatim>\<open>StageMetrics\<close>; its optional \<^verbatim>\<open>avgPlayTime\<close> is the field \<open>stageAvgPlayTime\<close>.\<close>

record StageMetrics =
  invites :: jsnum
  clicks :: jsnum
  plays :: jsnum
  playTime :: jsnum
  count :: jsnum
  stageAvgPlayTime :: "jsnum option"

record CommunityMetrics =
  totalInvites :: jsnum
  totalClicks :: jsnum
  totalPlays :: jsnum
  totalPlayTime :: jsnum
  clickRate :: jsnum
  playRate :: jsnum
  avgPlayTime :: jsnum
  stageBreakdown :: "StageMetrics jsobj"

record Strategy =
  focus :: string
  actions :: "string list"

record CommunityInsight =
  metrics :: CommunityMetrics
  insights :: "string list"

record AnalysisResult =
  communityInsights :: "CommunityInsight jsobj"
  followUpStrategies :: "(Strategy list) jsobj"
  monthlyTrends :: "StageMetrics jsobj"
  analysisDate :: string

section \<open>The analyzer\<close>

definition preprocessRow :: "js_host \<Rightarrow> EngagementData \<Rightarrow> ProcessedData" where
  "preprocessRow h row =
     \<lparr> TrackingDateFormatted = Date_parse h (TrackingDateFormatted row),
       Invites = or_zero (Number h (Invites row)),
       Clicks = or_zero (Number h (Clicks row)),
       Plays = or_zero (Number h (Plays row)),
       PlayTimeMin = or_zero (Number h (PlayTimeMin row)),
       AutomationStage = AutomationStage row,
       Community = Community row \<rparr>"

definition preprocessData :: "js_host \<Rightarrow> EngagementData list \<Rightarrow> ProcessedData list" where
  "preprocessData h data = map (preprocessRow h) data"

text \<open>
  The body shared by the two grouping loops (by stage, by month): create the entry
  when the read of the key is falsy, then add the row to the object read by the key.
\<close>

definition emptyMetrics :: StageMetrics where
  "emptyMetrics =
     \<lparr> invites = 0, clicks = 0, plays = 0, playTime = 0, count = 0, stageAvgPlayTime = None \<rparr>"

definition addTo :: "ProcessedData \<Rightarrow> StageMetrics \<Rightarrow> StageMetrics" where
  "addTo row s =
     s\<lparr> invites := invites s + Invites row,
        clicks := clicks s + Clicks row,
        plays := plays s + Plays row,
        playTime := playTime s + PlayTimeMin row,
        count := count s + Fin 1 \<rparr>"

definition addRow :: "string \<Rightarrow> ProcessedData \<Rightarrow> StageMetrics jsobj \<Rightarrow> StageMetrics jsobj" where
  "addRow key row obj =
     (let obj1 = (if \<not> prop_truthy obj key then obj_assign key emptyMetrics obj else obj)
      in obj_modify key (addTo row) obj1)"

text \<open>The second pass of both loops: the average play time of every own entry.\<close>

definition withAvg :: "StageMetrics \<Rightarrow> StageMetrics" where
  "withAvg s =
     s\<lparr> stageAvgPlayTime := Some (if truthy (plays s) then js_div (playTime s) (plays s) else 0) \<rparr>"

definition calculateStageBreakdown :: "ProcessedData list \<Rightarrow> StageMetrics jsobj" where
  "calculateStageBreakdown data =
     (let stages = foldl (\<lambda>stages row. addRow (AutomationStage row) row stages) [] data
      in map (\<lambda>(stage, stageData). (stage, withAvg stageData)) stages)"

definition calculateCommunityMetrics :: "ProcessedData list \<Rightarrow> CommunityMetrics" where
  "calculateCommunityMetrics communityData =
     (let m0 = \<lparr> totalInvites = foldl (\<lambda>sum row. sum + Invites row) 0 communityData,
                 totalClicks = foldl (\<lambda>sum row. sum + Clicks row) 0 communityData,
                 totalPlays = foldl (\<lambda>sum row. sum + Plays row) 0 communityData,
                 totalPlayTime = foldl (\<lambda>sum row. sum + PlayTimeMin row) 0 communityData,
                 clickRate = 0,
                 playRate = 0,
                 avgPlayTime = 0,
                 stageBreakdown = calculateStageBreakdown communityData \<rparr>;
          m1 = m0\<lparr> clickRate := (if truthy (totalInvites m0)
                     then js_mul (js_div (totalClicks m0) (totalInvites m0)) (Fin 100) else 0) \<rparr>;
          m2 = m1\<lparr> playRate := (if truthy (totalClicks m1)
                     then js_mul (js_div (totalPlays m1) (totalClicks m1)) (Fin 100) else 0) \<rparr>;
          m3 = m2\<lparr> avgPlayTime := (if truthy (totalPlays m2)
                     then js_div (totalPlayTime m2) (totalPlays m2) else 0) \<rparr>
      in m3)"

text \<open>The three message templates of \<^verbatim>\<open>generateInsights\<close> and the final one.\<close>

definition strongMsg :: "js_host \<Rightarrow> jsnum \<Rightarrow> string" where
  "strongMsg h r = ''Strong initial engagement with '' @ toFixed1 h r @ ''% click rate''"

definition opportunityMsg :: "js_host \<Rightarrow> jsnum \<Rightarrow> string" where
  "opportunityMsg h r =
     ''Opportunity to improve initial engagement ('' @ toFixed1 h r @ ''% click rate)''"

definition watchTimeMsg :: "js_host \<Rightarrow> jsnum \<Rightarrow> string" where
  "watchTimeMsg h t = ''Excellent average watch time of '' @ toFixed1 h t @ '' minutes''"

definition strongestMsg :: "string \<Rightarrow> string" where
  "strongestMsg stage = ''Strongest performance in '' @ stage @ '' stage''"

text \<open>The reducer of \<^verbatim>\<open>generateInsights\<close>: the current entry wins on strictly more plays.\<close>

definition better :: "string \<times> StageMetrics \<Rightarrow> string \<times> StageMetrics \<Rightarrow> string \<times> StageMetrics" where
  "better best current = (if js_gt (plays (snd current)) (plays (snd best)) then current else best)"

definition generateInsights :: "js_host \<Rightarrow> CommunityMetrics \<Rightarrow> js_error + string list" where
  "generateInsights h m =
     (let insights0 = [];
          insights1 = (if js_gt (clickRate m) (Fin 50) then insights0 @ [strongMsg h (clickRate m)]
                       else if js_lt (clickRate m) (Fin 30)
                         then insights0 @ [opportunityMsg h (clickRate m)]
                       else insights0);
          insights2 = (if js_gt (avgPlayTime m) (Fin 5)
                         then insights1 @ [watchTimeMsg h (avgPlayTime m)]
                       else insights1);
          stages = Object_entries (stageBreakdown m)
      in case reduce1 better stages of
           Inl e \<Rightarrow> Inl e
         | Inr bestStage \<Rightarrow> Inr (insights2 @ [strongestMsg (fst bestStage)]))"

definition improveInitialEngagement :: Strategy where
  "improveInitialEngagement =
     \<lparr> focus = ''Improve Initial Engagement'',
       actions = [''A/B test video thumbnail images'',
                  ''Optimize video titles for clarity and impact'',
                  ''Send invites during peak engagement hours'',
                  ''Include personalized preview content in invitations''] \<rparr>"

definition increasePlayRate :: Strategy where
  "increasePlayRate =
     \<lparr> focus = ''Increase Play Rate'',
       actions = [''Add social proof elements to landing pages'',
                  ''Include video duration in preview'',
                  ''Create stage-specific video content'',
                  ''Implement one-click play functionality''] \<rparr>"

definition extendWatchTime :: Strategy where
  "extendWatchTime =
     \<lparr> focus = ''Extend Watch Time'',
       actions = [''Add chapter markers for longer videos'',
                  ''Include interactive elements at key dropoff points'',
                  ''Create shorter, more focused video content'',
                  ''Add compelling calls-to-action throughout''] \<rparr>"

definition generateStrategies :: "CommunityMetrics \<Rightarrow> Strategy list" where
  "generateStrategies m =
     (let strategies0 = [];
          strategies1 = (if js_lt (clickRate m) (Fin 40)
                           then strategies0 @ [improveInitialEngagement] else strategies0);
          strategies2 = (if js_lt (playRate m) (Fin 70)
                           then strategies1 @ [increasePlayRate] else strategies1);
          strategies3 = (if js_lt (avgPlayTime m) (Fin 3)
                           then strategies2 @ [extendWatchTime] else strategies2)
      in strategies3)"

text \<open>
  The first loop of \<^verbatim>\<open>calculateMonthlyTrends\<close>: the month key is the first seven
  characters of the ISO text of the row's date, and the exception of
  \<^verbatim>\<open>toISOString\<close> ends the loop and the call.
\<close>

fun monthlyLoop ::
  "js_host \<Rightarrow> ProcessedData list \<Rightarrow> StageMetrics jsobj \<Rightarrow> js_error + StageMetrics jsobj" where
  "monthlyLoop h [] monthlyData = Inr monthlyData"
| "monthlyLoop h (row # rows) monthlyData =
     (case toISOString h (TrackingDateFormatted row) of
        Inl e \<Rightarrow> Inl e
      | Inr isoText \<Rightarrow> monthlyLoop h rows (addRow (take 7 isoText) row monthlyData))"

definition calculateMonthlyTrends ::
  "js_host \<Rightarrow> ProcessedData list \<Rightarrow> js_error + StageMetrics jsobj" where
  "calculateMonthlyTrends h processedData =
     (case monthlyLoop h processedData [] of
        Inl e \<Rightarrow> Inl e
      | Inr monthlyData \<Rightarrow> Inr (map (\<lambda>(month, data). (month, withAvg data)) monthlyData))"

text \<open>The loop of \<^verbatim>\<open>analyze\<close> over the communities, on the two tables of the report.\<close>

fun communityLoop ::
  "js_host \<Rightarrow> ProcessedData list \<Rightarrow> string list
     \<Rightarrow> CommunityInsight jsobj \<times> (Strategy list) jsobj
     \<Rightarrow> js_error + (CommunityInsight jsobj \<times> (Strategy list) jsobj)" where
  "communityLoop h processedData [] tables = Inr tables"
| "communityLoop h processedData (community # rest) (ci, fs) =
     (let communityData = filter (\<lambda>row. Community row = community) processedData;
          m = calculateCommunityMetrics communityData
      in case generateInsights h m of
           Inl e \<Rightarrow> Inl e
         | Inr ins \<Rightarrow>
             communityLoop h processedData rest
               (obj_assign community \<lparr> metrics = m, insights = ins \<rparr> ci,
                obj_assign community (generateStrategies m) fs))"

text \<open>
  \<^verbatim>\<open>new VideoEngagementAnalyzer(data).analyze()\<close>: the constructor preprocesses the
  data; \<^verbatim>\<open>analyze\<close> computes the monthly trends while it builds the report object,
  before the loop over the communities.
\<close>

definition analyze :: "js_host \<Rightarrow> EngagementData list \<Rightarrow> js_error + AnalysisResult" where
  "analyze h data =
     (let processedData = preprocessData h data;
          communities = Set_of (map Community processedData)
      in case calculateMonthlyTrends h processedData of
           Inl e \<Rightarrow> Inl e
         | Inr trends \<Rightarrow>
             (let date = take 10 (isoFormat h (now h))
              in case communityLoop h processedData communities ([], []) of
                   Inl e \<Rightarrow> Inl e
                 | Inr (ci, fs) \<Rightarrow>
                     Inr \<lparr> communityInsights = ci, followUpStrategies = fs,
                           monthlyTrends = trends, analysisDate = date \<rparr>))"

section \<open>The CSV ingestor\<close>

text \<open>
  \<^verbatim>\<open>parseCSV\<close> of the upload component \<^verbatim>\<open>VideoEngagementUI.tsx\<close>. A string is a list of
  8-bit characters, read as the code units U+0000 to U+00FF; the white space that
  \<^verbatim>\<open>trim\<close> and \<^verbatim>\<open>Number\<close> strip is, in this range, the tab, line feed, vertical tab,
  form feed, carriage return, space and no-break space (U+00A0). The white space
  characters above U+00FF are not representable.
\<close>

definition isWhiteSpace :: "char \<Rightarrow> bool" where
  "isWhiteSpace c = ((of_char c :: nat) \<in> set [9, 10, 11, 12, 13, 32, 160])"

definition trim :: "string \<Rightarrow> string" where
  "trim s = rev (dropWhile isWhiteSpace (rev (dropWhile isWhiteSpace s)))"

text \<open>\<^verbatim>\<open>s.replace(/"/g, '')\<close>.\<close>

definition removeQuotes :: "string \<Rightarrow> string" where
  "removeQuotes s = filter (\<lambda>c. c \<noteq> CHR 0x22) s"

text \<open>\<^verbatim>\<open>s.split(c)\<close> on a one-character separator: never the empty array.\<close>

fun split :: "char \<Rightarrow> string \<Rightarrow> string list" where
  "split sep [] = [[]]"
| "split sep (c # cs) =
     (if c = sep then [] # split sep cs
      else (case split sep cs of [] \<Rightarrow> [[c]] | w # ws \<Rightarrow> (c # w) # ws))"

text \<open>The comma-split-and-strip step: \<^verbatim>\<open>line.split(',').map(v => v.trim().replace(/"/g, ''))\<close>.\<close>

definition fieldValues :: "string \<Rightarrow> string list" where
  "fieldValues line = map (\<lambda>v. removeQuotes (trim v)) (split CHR '','' line)"

text \<open>\<^verbatim>\<open>isNaN(Number(v)) ? v : Number(v)\<close> on a field text.\<close>

definition coerceField :: "js_host \<Rightarrow> string \<Rightarrow> jsval" where
  "coerceField h v = (if isNaN (StringToNumber h v) then JString v else JNumber (StringToNumber h v))"

text \<open>
  The same expression on \<^verbatim>\<open>values[i]\<close>, which is undefined when the line has fewer
  fields than the header: \<^verbatim>\<open>Number(undefined)\<close> is NaN and the undefined value is stored.
\<close>

definition cell :: "js_host \<Rightarrow> string list \<Rightarrow> nat \<Rightarrow> jsval" where
  "cell h values i = (if i < length values then coerceField h (values ! i) else JUndefined)"

text \<open>
  The row object built by \<^verbatim>\<open>headers.reduce((obj, header, i) => ..., {})\<close>: for every
  header in turn, \<^verbatim>\<open>obj[header]\<close> is assigned the coerced field at the header's position.
\<close>

definition rowObject :: "js_host \<Rightarrow> string list \<Rightarrow> string \<Rightarrow> jsval jsobj" where
  "rowObject h headers line =
     (let values = fieldValues line
      in foldl (\<lambda>obj (header, i). obj_assign header (cell h values i) obj) []
           (zip headers [0 ..< length headers]))"

text \<open>
  The read \<^verbatim>\<open>row[k]\<close> of a name that \<^verbatim>\<open>Object.prototype\<close> does not have: the own
  property, or undefined.
\<close>

definition obj_get :: "jsval jsobj \<Rightarrow> string \<Rightarrow> jsval" where
  "obj_get obj k = (case map_of obj k of None \<Rightarrow> JUndefined | Some v \<Rightarrow> v)"

text \<open>
  The record returned for a line holds the seven fixed keys, each read from the row
  object; the other columns are dropped. (The older copy of the component returns the
  row object itself.)
\<close>

definition recordKeys :: "string list" where
  "recordKeys =
     [''Tracking Date Formatted'', ''Invites'', ''Clicks'', ''Plays'', ''Play Time (Min)'',
      ''Automation Stage'', ''Community'']"

definition parseLine :: "js_host \<Rightarrow> string list \<Rightarrow> string \<Rightarrow> jsval jsobj" where
  "parseLine h headers line =
     (let row = rowObject h headers line
      in map (\<lambda>k. (k, obj_get row k)) recordKeys)"

definition parseCSV :: "js_host \<Rightarrow> string \<Rightarrow> (jsval jsobj) list" where
  "parseCSV h text =
     (case split CHR 0x0A text of
        [] \<Rightarrow> []
      | first # rest \<Rightarrow>
          (let headers = fieldValues first
           in map (parseLine h headers) (filter (\<lambda>line. trim line \<noteq> []) rest)))"

section \<open>A reference instance of the runtime functions\<close>

text \<open>
  \<open>refHost\<close> gives the runtime functions their standard results on the inputs it
  covers, so that the model runs on concrete data. The string-to-number conversion
  follows the grammar of the language (optional white space around a signed decimal
  literal with optional fraction and exponent, \<^verbatim>\<open>Infinity\<close>, or an unsigned binary,
  octal or hexadecimal literal; the empty text is 0; anything else is NaN) with exact
  values. The date parser reads the ISO date-only forms (\<^verbatim>\<open>YYYY\<close>, \<^verbatim>\<open>YYYY-MM\<close>,
  \<^verbatim>\<open>YYYY-MM-DD\<close>) as UTC midnight and takes every other text as unrecognised.
  \<open>refToFixed1\<close> is \<^verbatim>\<open>toFixed(1)\<close> for magnitudes below \<open>10^21\<close>, where JavaScript
  does not switch to the exponent notation.
\<close>

fun js_neg :: "jsnum \<Rightarrow> jsnum" where
  "js_neg NaN = NaN"
| "js_neg PInf = NInf"
| "js_neg NInf = PInf"
| "js_neg (Fin a) = Fin (- a)"

definition radixDigit :: "int \<Rightarrow> char \<Rightarrow> int option" where
  "radixDigit base c =
     (let n = (of_char c :: int);
          d = (if 48 \<le> n \<and> n \<le> 57 then Some (n - 48)
               else if 97 \<le> n \<and> n \<le> 102 then Some (n - 87)
               else if 65 \<le> n \<and> n \<le> 70 then Some (n - 55)
               else None)
      in case d of None \<Rightarrow> None | Some v \<Rightarrow> (if v < base then Some v else None))"

definition radixValue :: "int \<Rightarrow> string \<Rightarrow> int option" where
  "radixValue base s =
     (if s \<noteq> [] \<and> list_all (\<lambda>c. radixDigit base c \<noteq> None) s
      then Some (foldl (\<lambda>n c. base * n + (case radixDigit base c of None \<Rightarrow> 0 | Some d \<Rightarrow> d)) 0 s)
      else None)"

definition nonDecimalLiteral :: "string \<Rightarrow> int option" where
  "nonDecimalLiteral s =
     (case s of
        c0 # c1 # ds \<Rightarrow>
          (if c0 \<noteq> CHR ''0'' then None
           else if c1 \<in> set ''xX'' then radixValue 16 ds
           else if c1 \<in> set ''oO'' then radixValue 8 ds
           else if c1 \<in> set ''bB'' then radixValue 2 ds
           else None)
      | _ \<Rightarrow> None)"

definition exponentValue :: "string \<Rightarrow> int option" where
  "exponentValue s =
     (case s of
        [] \<Rightarrow> None
      | c # ds \<Rightarrow>
          (if c = CHR ''+'' then radixValue 10 ds
           else if c = CHR ''-'' then map_option uminus (radixValue 10 ds)
           else radixValue 10 s))"

definition pow10 :: "int \<Rightarrow> real" where
  "pow10 e = (if 0 \<le> e then 10 ^ nat e else 1 / 10 ^ nat (- e))"

definition decimalValue :: "string \<Rightarrow> real option" where
  "decimalValue s =
     (let mant = takeWhile (\<lambda>c. c \<noteq> CHR ''e'' \<and> c \<noteq> CHR ''E'') s;
          afterMant = dropWhile (\<lambda>c. c \<noteq> CHR ''e'' \<and> c \<noteq> CHR ''E'') s;
          ip = takeWhile (\<lambda>c. c \<noteq> CHR ''.'') mant;
          afterInt = dropWhile (\<lambda>c. c \<noteq> CHR ''.'') mant;
          fp = tl afterInt;
          digitsOk = (list_all isDigit ip \<and> list_all isDigit fp
                      \<and> (if afterInt = [] then ip \<noteq> [] else ip @ fp \<noteq> []));
          ex = (if afterMant = [] then Some 0 else exponentValue (tl afterMant))
      in if digitsOk
         then (case ex of
                 None \<Rightarrow> None
               | Some e \<Rightarrow>
                   Some ((of_int (digitsToInt ip) + of_int (digitsToInt fp) / 10 ^ length fp)
                         * pow10 e))
         else None)"

definition unsignedDecimal :: "string \<Rightarrow> jsnum option" where
  "unsignedDecimal s =
     (if s = ''Infinity'' then Some PInf else map_option Fin (decimalValue s))"

definition strDecimalLiteral :: "string \<Rightarrow> jsnum option" where
  "strDecimalLiteral s =
     (case s of
        [] \<Rightarrow> None
      | c # r \<Rightarrow>
          (if c = CHR ''+'' then unsignedDecimal r
           else if c = CHR ''-'' then map_option js_neg (unsignedDecimal r)
           else unsignedDecimal s))"

definition refStringToNumber :: "string \<Rightarrow> jsnum" where
  "refStringToNumber s =
     (let t = trim s
      in if t = [] then 0
         else (case nonDecimalLiteral t of
                 Some n \<Rightarrow> Fin (of_int n)
               | None \<Rightarrow> (case strDecimalLiteral t of Some v \<Rightarrow> v | None \<Rightarrow> NaN)))"

text \<open>Decimal digits of a non-negative integer, and the same padded with zeros on the left.\<close>

function decimalString :: "int \<Rightarrow> string" where
  "decimalString n =
     (if n < 10 then [char_of (48 + n)]
      else decimalString (n div 10) @ [char_of (48 + n mod 10)])"
  by pat_completeness auto
termination
  by (relation "measure nat") auto

declare decimalString.simps [simp del]

definition padZero :: "nat \<Rightarrow> int \<Rightarrow> string" where
  "padZero width n = replicate (width - length (decimalString n)) CHR ''0'' @ decimalString n"

text \<open>
  \<^verbatim>\<open>toFixed(1)\<close>: the integer \<open>n\<close> with \<open>n / 10\<close> nearest to the magnitude (the larger
  one of two), printed with one digit after the point, after the sign.
\<close>

fun refToFixed1 :: "jsnum \<Rightarrow> string" where
  "refToFixed1 NaN = ''NaN''"
| "refToFixed1 PInf = ''Infinity''"
| "refToFixed1 NInf = ''-Infinity''"
| "refToFixed1 (Fin r) =
     (let n = \<lfloor>\<bar>r\<bar> * 10 + 1 / 2\<rfloor>
      in (if r < 0 then ''-'' else []) @ decimalString (n div 10) @ ''.'' @ decimalString (n mod 10))"

text \<open>The proleptic Gregorian calendar: days since the epoch of a date, and back.\<close>

definition isLeap :: "int \<Rightarrow> bool" where
  "isLeap y = (y mod 4 = 0 \<and> (y mod 400 = 0 \<or> y mod 100 \<noteq> 0))"

definition daysInMonth :: "int \<Rightarrow> int \<Rightarrow> int" where
  "daysInMonth y m =
     (if m = 2 then (if isLeap y then 29 else 28)
      else if m \<in> set [4, 6, 9, 11] then 30 else 31)"

definition daysFromCivil :: "int \<Rightarrow> int \<Rightarrow> int \<Rightarrow> int" where
  "daysFromCivil y m d =
     (let y1 = (if m \<le> 2 then y - 1 else y);
          era = y1 div 400;
          yoe = y1 - era * 400;
          doy = (153 * (if 2 < m then m - 3 else m + 9) + 2) div 5 + d - 1;
          doe = yoe * 365 + yoe div 4 - yoe div 100 + doy
      in era * 146097 + doe - 719468)"

definition civilFromDays :: "int \<Rightarrow> int \<times> int \<times> int" where
  "civilFromDays z =
     (let z1 = z + 719468;
          era = z1 div 146097;
          doe = z1 - era * 146097;
          yoe = (doe - doe div 1460 + doe div 36524 - doe div 146096) div 365;
          doy = doe - (365 * yoe + yoe div 4 - yoe div 100);
          mp = (5 * doy + 2) div 153;
          d = doy - (153 * mp + 2) div 5 + 1;
          m = (if mp < 10 then mp + 3 else mp - 9);
          y = yoe + era * 400 + (if m \<le> 2 then 1 else 0)
      in (y, m, d))"

definition dateField :: "nat \<Rightarrow> string \<Rightarrow> int option" where
  "dateField width s =
     (if length s = width \<and> list_all isDigit s then Some (digitsToInt s) else None)"

definition utcDate :: "int option \<Rightarrow> int option \<Rightarrow> int option \<Rightarrow> jsdate" where
  "utcDate yo mo dd =
     (case (yo, mo, dd) of
        (Some y, Some m, Some d) \<Rightarrow>
          (if 1 \<le> m \<and> m \<le> 12 \<and> 1 \<le> d \<and> d \<le> daysInMonth y m
           then ValidDate (daysFromCivil y m d * 86400000) else InvalidDate)
      | _ \<Rightarrow> InvalidDate)"

definition refDateParse :: "string \<Rightarrow> jsdate" where
  "refDateParse s =
     (case split CHR ''-'' s of
        [y] \<Rightarrow> utcDate (dateField 4 y) (Some 1) (Some 1)
      | [y, m] \<Rightarrow> utcDate (dateField 4 y) (dateField 2 m) (Some 1)
      | [y, m, d] \<Rightarrow> utcDate (dateField 4 y) (dateField 2 m) (dateField 2 d)
      | _ \<Rightarrow> InvalidDate)"

definition refIsoFormat :: "int \<Rightarrow> string" where
  "refIsoFormat t =
     (let ms = t mod 86400000;
          (y, m, d) = civilFromDays (t div 86400000);
          year = (if 0 \<le> y \<and> y \<le> 9999 then padZero 4 y
                  else (if y < 0 then ''-'' else ''+'') @ padZero 6 \<bar>y\<bar>)
      in year @ ''-'' @ padZero 2 m @ ''-'' @ padZero 2 d
         @ ''T'' @ padZero 2 (ms div 3600000)
         @ '':'' @ padZero 2 (ms div 60000 mod 60)
         @ '':'' @ padZero 2 (ms div 1000 mod 60)
         @ ''.'' @ padZero 3 (ms mod 1000) @ ''Z'')"

text \<open>The reference clock reads 2024-03-01T00:00:00.000Z.\<close>

definition refHost :: js_host where
  "refHost =
     \<lparr> StringToNumber = refStringToNumber,
       Date_parse = refDateParse,
       isoFormat = refIsoFormat,
       toFixed1 = refToFixed1,
       now = 1709251200000 \<rparr>"

section \<open>Notions of the specification and concrete inputs\<close>

text \<open>The specification's invariant on a numeric field: finite and not negative.\<close>

definition finiteNonNegative :: "jsnum \<Rightarrow> bool" where
  "finiteNonNegative n = (case n of Fin a \<Rightarrow> 0 \<le> a | _ \<Rightarrow> False)"

text \<open>
  The sum of one accumulated quantity over all stages of a breakdown (the own entries
  of the object).
\<close>

definition stageSum :: "(StageMetrics \<Rightarrow> jsnum) \<Rightarrow> StageMetrics jsobj \<Rightarrow> jsnum" where
  "stageSum f breakdown = foldl (\<lambda>sum e. sum + f (snd e)) 0 breakdown"

text \<open>
  A text parses fully as a number when, white space around it aside, the whole of it is
  a numeric literal of the language's grammar for strings: \<^verbatim>\<open>0x\<close>, \<^verbatim>\<open>0o\<close> or \<^verbatim>\<open>0b\<close>
  followed by digits of that radix, or an optionally signed decimal literal, which is
  \<^verbatim>\<open>Infinity\<close> or digits with an optional fraction (digits on at least one side of the
  point) and an optional exponent part. The empty text is no literal.
\<close>

definition isHexDigit :: "char \<Rightarrow> bool" where
  "isHexDigit c =
     (let n = (of_char c :: int)
      in (48 \<le> n \<and> n \<le> 57) \<or> (97 \<le> n \<and> n \<le> 102) \<or> (65 \<le> n \<and> n \<le> 70))"

definition isOctalDigit :: "char \<Rightarrow> bool" where
  "isOctalDigit c = (let n = (of_char c :: int) in 48 \<le> n \<and> n \<le> 55)"

definition isBinaryDigit :: "char \<Rightarrow> bool" where
  "isBinaryDigit c = (c = CHR ''0'' \<or> c = CHR ''1'')"

definition isNonDecimalIntegerLiteral :: "string \<Rightarrow> bool" where
  "isNonDecimalIntegerLiteral s =
     (case s of
        c0 # c1 # ds \<Rightarrow>
          c0 = CHR ''0'' \<and> ds \<noteq> []
          \<and> ((c1 \<in> set ''xX'' \<and> list_all isHexDigit ds)
             \<or> (c1 \<in> set ''oO'' \<and> list_all isOctalDigit ds)
             \<or> (c1 \<in> set ''bB'' \<and> list_all isBinaryDigit ds))
      | _ \<Rightarrow> False)"

definition isDecimalDigits :: "string \<Rightarrow> bool" where
  "isDecimalDigits s = (s \<noteq> [] \<and> list_all isDigit s)"

definition isExponentPart :: "string \<Rightarrow> bool" where
  "isExponentPart s =
     (case s of
        [] \<Rightarrow> False
      | c # r \<Rightarrow>
          c \<in> set ''eE''
          \<and> (case r of
                [] \<Rightarrow> False
              | d # ds \<Rightarrow> if d \<in> set ''+-'' then isDecimalDigits ds else isDecimalDigits r))"

definition isStrUnsignedDecimalLiteral :: "string \<Rightarrow> bool" where
  "isStrUnsignedDecimalLiteral s =
     (s = ''Infinity''
      \<or> (let intDigits = takeWhile isDigit s;
              rest = dropWhile isDigit s
          in case rest of
               [] \<Rightarrow> intDigits \<noteq> []
             | c # r \<Rightarrow>
                 if c = CHR ''.''
                 then (let fracDigits = takeWhile isDigit r;
                           rest2 = dropWhile isDigit r
                       in intDigits @ fracDigits \<noteq> [] \<and> (rest2 = [] \<or> isExponentPart rest2))
                 else intDigits \<noteq> [] \<and> isExponentPart rest))"

definition isStrDecimalLiteral :: "string \<Rightarrow> bool" where
  "isStrDecimalLiteral s =
     (case s of
        [] \<Rightarrow> False
      | c # r \<Rightarrow>
          if c \<in> set ''+-'' then isStrUnsignedDecimalLiteral r else isStrUnsignedDecimalLiteral s)"

definition parsesFullyAsNumber :: "string \<Rightarrow> bool" where
  "parsesFullyAsNumber s =
     (isNonDecimalIntegerLiteral (trim s) \<or> isStrDecimalLiteral (trim s))"

text \<open>\<^verbatim>\<open>Number.isFinite\<close>: neither NaN nor an infinity.\<close>

fun isFinite :: "jsnum \<Rightarrow> bool" where
  "isFinite (Fin a) = True"
| "isFinite _ = False"

text \<open>A strongest-performance message is recognised by its fixed beginning.\<close>

definition isStrongestMsg :: "string \<Rightarrow> bool" where
  "isStrongestMsg s = (take 25 s = ''Strongest performance in '')"

text \<open>The row of the specification's scenario, and variations of it.\<close>

definition scenarioRow :: EngagementData where
  "scenarioRow =
     \<lparr> TrackingDateFormatted = ''2024-01-01'',
       Invites = JNumber (Fin 100),
       Clicks = JNumber (Fin 60),
       Plays = JNumber (Fin 40),
       PlayTimeMin = JNumber (Fin 200),
       AutomationStage = ''S1'',
       Community = ''A'' \<rparr>"

definition zeroRow :: EngagementData where
  "zeroRow =
     scenarioRow\<lparr> Invites := JNumber (Fin 0), Clicks := JString ''0'',
                  Plays := JString ''n/a'', PlayTimeMin := JUndefined \<rparr>"

definition mixedRow :: EngagementData where
  "mixedRow =
     scenarioRow\<lparr> Invites := JString ''abc'', Clicks := JUndefined,
                  Plays := JString ''40'', PlayTimeMin := JNumber (Fin (5 / 2)) \<rparr>"

definition negativeRow :: EngagementData where
  "negativeRow = scenarioRow\<lparr> Invites := JNumber (Fin (- 5)), Clicks := JString ''Infinity'' \<rparr>"

definition infiniteRows :: "EngagementData list" where
  "infiniteRows = [scenarioRow\<lparr> Invites := JNumber PInf \<rparr>, scenarioRow\<lparr> Invites := JNumber NInf \<rparr>]"

definition month13Row :: EngagementData where
  "month13Row = scenarioRow\<lparr> TrackingDateFormatted := ''2024-13-45'' \<rparr>"

definition month0Row :: EngagementData where
  "month0Row = scenarioRow\<lparr> TrackingDateFormatted := ''2024-00-10'' \<rparr>"

definition constructorRow :: EngagementData where
  "constructorRow = scenarioRow\<lparr> AutomationStage := ''constructor'' \<rparr>"

definition toStringRow :: EngagementData where
  "toStringRow = scenarioRow\<lparr> AutomationStage := ''toString'' \<rparr>"

text \<open>
  A header line and a data line of an upload: the fourth field is a quoted text that
  starts with a no-break space, the fifth is empty.
\<close>

definition csvHeaders :: "string list" where
  "csvHeaders = [''Community'', ''Invites'', ''Automation Stage'', ''Plays'', ''Clicks'', ''Note'']"

definition csvLine :: string where
  "csvLine = ''A, 12.5 ,\"S 1\",'' @ [CHR 0x22, CHR 0xA0, CHR ''7'', CHR 0x22] @ '',,x''"

text \<open>Metrics on the thresholds of the rules, and metrics with no stage.\<close>

definition boundaryMetrics :: CommunityMetrics where
  "boundaryMetrics =
     \<lparr> totalInvites = Fin 100, totalClicks = Fin 30, totalPlays = Fin 21,
       totalPlayTime = Fin 63, clickRate = Fin 30, playRate = Fin 70, avgPlayTime = Fin 3,
       stageBreakdown =
         [(''S1'', \<lparr> invites = Fin 100, clicks = Fin 30, plays = Fin 21, playTime = Fin 63,
                      count = Fin 1, stageAvgPlayTime = Some (Fin 3) \<rparr>)] \<rparr>"

definition noStageMetrics :: CommunityMetrics where
  "noStageMetrics =
     \<lparr> totalInvites = Fin 100, totalClicks = Fin 60, totalPlays = Fin 40,
       totalPlayTime = Fin 200, clickRate = Fin 60, playRate = Fin (200 / 3),
       avgPlayTime = Fin 5, stageBreakdown = [] \<rparr>"

section \<open>Properties of the number model\<close>

lemma truthy_iff: "truthy n \<longleftrightarrow> n \<noteq> 0 \<and> n \<noteq> NaN"
  by (cases n) (simp_all add: zero_jsnum_def)

lemma or_zero_eq: "or_zero n = (if n = NaN \<or> n = 0 then 0 else n)"
  by (simp add: or_zero_def truthy_iff)

lemma or_zero_not_NaN: "\<not> isNaN (or_zero n)"
  by (cases n) (simp_all add: or_zero_def zero_jsnum_def)

lemma lt30_not_gt50: "js_lt c (Fin 30) \<Longrightarrow> \<not> js_gt c (Fin 50)"
  by (cases c) (simp_all add: js_gt_def)

lemma js_lt_trans: "js_lt a b \<Longrightarrow> js_lt b c \<Longrightarrow> js_lt a c"
  by (cases a; cases b; cases c) simp_all

lemma js_not_gt_lt_trans:
  "isFinite a \<Longrightarrow> isFinite b \<Longrightarrow> \<not> js_gt a b \<Longrightarrow> js_lt b c \<Longrightarrow> js_lt a c"
  by (cases a; cases b; cases c) (simp_all add: js_gt_def)

lemma isFinite_add: "isFinite a \<Longrightarrow> isFinite b \<Longrightarrow> isFinite (a + b)"
  by (cases a; cases b) (simp_all add: plus_jsnum_def)

lemma foldl_plus_sum_list:
  fixes a :: jsnum
  shows "foldl (\<lambda>sum x. sum + F x) a xs = a + sum_list (map F xs)"
  by (induction xs arbitrary: a) (simp_all add: add.assoc)

section \<open>Properties of the object operations\<close>

lemma map_of_obj_put: "map_of (obj_put k v obj) k' = (if k' = k then Some v else map_of obj k')"
  by (induction obj) auto

lemma inherited_proto: "inherited ''__proto__''"
  by (simp add: inherited_def Object_prototype_names_def)

lemma length_obj_modify: "length (obj_modify k g obj) = length obj"
  by (induction obj) auto

lemma obj_put_nonempty: "obj_put k v obj \<noteq> []"
  by (cases obj) (auto split: if_splits)

lemma length_obj_put: "length obj \<le> length (obj_put k v obj)"
  by (induction obj) auto

lemma obj_modify_all:
  assumes "\<forall>e \<in> set obj. P (snd e)" and "\<And>s. P s \<Longrightarrow> P (g s)"
  shows "\<forall>e \<in> set (obj_modify k g obj). P (snd e)"
  using assms by (induction obj) (fastforce split: if_splits)+

lemma obj_put_all:
  assumes "\<forall>e \<in> set obj. P (snd e)" and "P v"
  shows "\<forall>e \<in> set (obj_put k v obj). P (snd e)"
  using assms by (induction obj) (fastforce split: if_splits)+

lemma length_Object_entries: "length (Object_entries obj) = length obj"
  by (simp add: Object_entries_def sum_length_filter_compl)

lemma set_Object_entries: "set (Object_entries obj) = set obj"
  by (auto simp: Object_entries_def)


lemma sum_obj_modify:
  fixes f :: "'v \<Rightarrow> jsnum"
  assumes "map_of obj k = Some s" and "f (g s) = f s + d"
  shows "sum_list (map (\<lambda>e. f (snd e)) (obj_modify k g obj))
           = sum_list (map (\<lambda>e. f (snd e)) obj) + d"
  using assms
proof (induction obj)
  case Nil
  then show ?case by simp
next
  case (Cons e obj)
  obtain k' v where e: "e = (k', v)" by (cases e)
  show ?case
  proof (cases "k' = k")
    case True
    with Cons.prems e show ?thesis
      by (simp add: ac_simps)
  next
    case False
    with Cons e show ?thesis
      by (simp add: add.assoc)
  qed
qed

lemma sum_obj_put_new:
  fixes f :: "'v \<Rightarrow> jsnum"
  shows "map_of obj k = None \<Longrightarrow>
   sum_list (map (\<lambda>e. f (snd e)) (obj_put k v obj)) = sum_list (map (\<lambda>e. f (snd e)) obj) + f v"
  by (induction obj) (auto simp: add.assoc split: if_splits)

section \<open>Preprocessing\<close>

text \<open>
  Claim C9. For every input record sequence, preprocessing produces a sequence of
  processed records of the same length and in the same order, and every processed
  record has the Community and the Automation Stage of the raw record at its position;
  only the tracking date and the four numeric fields are computed anew.
\<close>

theorem preprocessData_frame:
  "length (preprocessData h data) = length data
   \<and> map Community (preprocessData h data) = map Community data
   \<and> map AutomationStage (preprocessData h data) = map AutomationStage data
   \<and> (\<forall>i < length data.
         preprocessData h data ! i = preprocessRow h (data ! i)
         \<and> Community (preprocessData h data ! i) = Community (data ! i)
         \<and> AutomationStage (preprocessData h data ! i) = AutomationStage (data ! i))"
  by (simp add: preprocessData_def preprocessRow_def comp_def)

theorem preprocessData_frame_witness:
  "length (preprocessData refHost [scenarioRow, constructorRow]) = 2
   \<and> Community (preprocessData refHost [scenarioRow, constructorRow] ! 1) = ''A''
   \<and> AutomationStage (preprocessData refHost [scenarioRow, constructorRow] ! 1) = ''constructor''"
proof -
  have "\<forall>i < length [scenarioRow, constructorRow].
          Community (preprocessData refHost [scenarioRow, constructorRow] ! i)
            = Community ([scenarioRow, constructorRow] ! i)
          \<and> AutomationStage (preprocessData refHost [scenarioRow, constructorRow] ! i)
            = AutomationStage ([scenarioRow, constructorRow] ! i)"
    using preprocessData_frame [of refHost "[scenarioRow, constructorRow]"] by blast
  then have "Community (preprocessData refHost [scenarioRow, constructorRow] ! 1)
               = Community constructorRow
             \<and> AutomationStage (preprocessData refHost [scenarioRow, constructorRow] ! 1)
               = AutomationStage constructorRow"
    by simp
  then show ?thesis
    using preprocessData_frame [of refHost "[scenarioRow, constructorRow]"]
    by (simp add: constructorRow_def scenarioRow_def)
qed

text \<open>
  Claim C3, as amended. For every raw input record, each of the four numeric fields of
  the processed record is the number that \<^verbatim>\<open>Number\<close> gives for the raw value when that
  number is neither NaN nor zero, and 0 otherwise (so 0 stands in when the coercion
  fails or the value is absent); no field is NaN. The field may be negative or infinite.
\<close>

theorem preprocessRow_numeric:
  "Invites (preprocessRow h row) =
     (if Number h (Invites row) = NaN \<or> Number h (Invites row) = 0 then 0 else Number h (Invites row))
   \<and> Clicks (preprocessRow h row) =
     (if Number h (Clicks row) = NaN \<or> Number h (Clicks row) = 0 then 0 else Number h (Clicks row))
   \<and> Plays (preprocessRow h row) =
     (if Number h (Plays row) = NaN \<or> Number h (Plays row) = 0 then 0 else Number h (Plays row))
   \<and> PlayTimeMin (preprocessRow h row) =
     (if Number h (PlayTimeMin row) = NaN \<or> Number h (PlayTimeMin row) = 0 then 0
      else Number h (PlayTimeMin row))
   \<and> list_all (\<lambda>n. \<not> isNaN n)
        [Invites (preprocessRow h row), Clicks (preprocessRow h row),
         Plays (preprocessRow h row), PlayTimeMin (preprocessRow h row)]"
proof -
  have fields: "Invites (preprocessRow h row) = or_zero (Number h (Invites row))"
    "Clicks (preprocessRow h row) = or_zero (Number h (Clicks row))"
    "Plays (preprocessRow h row) = or_zero (Number h (Plays row))"
    "PlayTimeMin (preprocessRow h row) = or_zero (Number h (PlayTimeMin row))"
    by (simp_all add: preprocessRow_def)
  have "list_all (\<lambda>n. \<not> isNaN n)
        [Invites (preprocessRow h row), Clicks (preprocessRow h row),
         Plays (preprocessRow h row), PlayTimeMin (preprocessRow h row)]"
    unfolding fields by (simp add: or_zero_not_NaN)
  then show ?thesis
    unfolding fields or_zero_eq by simp
qed

theorem preprocessRow_numeric_witness:
  "Invites (preprocessRow refHost mixedRow) = 0
   \<and> Clicks (preprocessRow refHost mixedRow) = 0
   \<and> Plays (preprocessRow refHost mixedRow) = Fin 40
   \<and> PlayTimeMin (preprocessRow refHost mixedRow) = Fin (5 / 2)"
proof -
  have "Number refHost (Invites mixedRow) = NaN" "Number refHost (Clicks mixedRow) = NaN"
    "Number refHost (Plays mixedRow) = Fin 40" "Number refHost (PlayTimeMin mixedRow) = Fin (5 / 2)"
    by code_simp+
  then show ?thesis
    using preprocessRow_numeric [of refHost mixedRow] by (simp add: zero_jsnum_def)
qed

theorem preprocessRow_counterexample:
  "\<not> finiteNonNegative (Invites (preprocessRow refHost negativeRow))
   \<and> \<not> finiteNonNegative (Clicks (preprocessRow refHost negativeRow))
   \<and> Invites (preprocessRow refHost negativeRow) = Fin (- 5)
   \<and> Clicks (preprocessRow refHost negativeRow) = PInf"
  by code_simp

section \<open>Community metrics\<close>

text \<open>
  Claim C1, as amended. For every sequence of processed records, the rates computed
  by \<^verbatim>\<open>calculateCommunityMetrics\<close> and the per-stage average play time computed by
  \<^verbatim>\<open>calculateStageBreakdown\<close> are exactly 0 when their denominator is 0 or NaN, and
  otherwise equal the defined ratio (clicks over invites times 100, plays over clicks
  times 100, play time over plays); both functions return a value on every input, and
  a zero denominator never gives NaN.
\<close>

theorem rates_guarded:
  "clickRate (calculateCommunityMetrics d) =
     (if totalInvites (calculateCommunityMetrics d) = 0 \<or> totalInvites (calculateCommunityMetrics d) = NaN
      then 0
      else js_mul (js_div (totalClicks (calculateCommunityMetrics d))
                          (totalInvites (calculateCommunityMetrics d))) (Fin 100))
   \<and> playRate (calculateCommunityMetrics d) =
     (if totalClicks (calculateCommunityMetrics d) = 0 \<or> totalClicks (calculateCommunityMetrics d) = NaN
      then 0
      else js_mul (js_div (totalPlays (calculateCommunityMetrics d))
                          (totalClicks (calculateCommunityMetrics d))) (Fin 100))
   \<and> avgPlayTime (calculateCommunityMetrics d) =
     (if totalPlays (calculateCommunityMetrics d) = 0 \<or> totalPlays (calculateCommunityMetrics d) = NaN
      then 0
      else js_div (totalPlayTime (calculateCommunityMetrics d))
                  (totalPlays (calculateCommunityMetrics d)))
   \<and> list_all (\<lambda>e. stageAvgPlayTime (snd e) =
                  Some (if plays (snd e) = 0 \<or> plays (snd e) = NaN then 0
                        else js_div (playTime (snd e)) (plays (snd e))))
        (calculateStageBreakdown d)"
  by (simp add: calculateCommunityMetrics_def calculateStageBreakdown_def Let_def truthy_iff
      list_all_iff withAvg_def split_def)

theorem rates_guarded_witness:
  "clickRate (calculateCommunityMetrics (preprocessData refHost [zeroRow])) = 0
   \<and> playRate (calculateCommunityMetrics (preprocessData refHost [zeroRow])) = 0
   \<and> avgPlayTime (calculateCommunityMetrics (preprocessData refHost [zeroRow])) = 0
   \<and> map (\<lambda>e. stageAvgPlayTime (snd e))
        (calculateStageBreakdown (preprocessData refHost [zeroRow])) = [Some 0]"
proof -
  have totals: "totalInvites (calculateCommunityMetrics (preprocessData refHost [zeroRow])) = 0"
    "totalClicks (calculateCommunityMetrics (preprocessData refHost [zeroRow])) = 0"
    "totalPlays (calculateCommunityMetrics (preprocessData refHost [zeroRow])) = 0"
    by code_simp+
  have stages: "map (\<lambda>e. (fst e, plays (snd e)))
                  (calculateStageBreakdown (preprocessData refHost [zeroRow])) = [(''S1'', 0)]"
    by code_simp
  then obtain s where one: "calculateStageBreakdown (preprocessData refHost [zeroRow]) = [(''S1'', s)]"
    and "plays s = 0"
    by auto
  then show ?thesis
    using rates_guarded [of "preprocessData refHost [zeroRow]"] totals by simp
qed

theorem rates_counterexample:
  "totalInvites (calculateCommunityMetrics
      (filter (\<lambda>row. Community row = ''A'') (preprocessData refHost infiniteRows))) \<noteq> 0
   \<and> clickRate (calculateCommunityMetrics
      (filter (\<lambda>row. Community row = ''A'') (preprocessData refHost infiniteRows))) = 0
   \<and> js_mul (js_div
        (totalClicks (calculateCommunityMetrics
           (filter (\<lambda>row. Community row = ''A'') (preprocessData refHost infiniteRows))))
        (totalInvites (calculateCommunityMetrics
           (filter (\<lambda>row. Community row = ''A'') (preprocessData refHost infiniteRows)))))
      (Fin 100) = NaN"
  by code_simp

section \<open>Stage sums and community totals\<close>

lemma stageSum_sum_list: "stageSum f obj = sum_list (map (\<lambda>e. f (snd e)) obj)"
  by (simp add: stageSum_def foldl_plus_sum_list)

text \<open>One row adds its quantity to the sum over the entries, unless its key is inherited.\<close>

lemma sum_addRow:
  fixes f :: "StageMetrics \<Rightarrow> jsnum"
  assumes key: "\<not> inherited key"
    and step: "\<And>s. f (addTo row s) = f s + F row"
    and empty: "f emptyMetrics = 0"
  shows "sum_list (map (\<lambda>e. f (snd e)) (addRow key row obj))
           = sum_list (map (\<lambda>e. f (snd e)) obj) + F row"
proof (cases "map_of obj key")
  case None
  from key have "key \<noteq> ''__proto__''"
    using inherited_proto by auto
  with None key have "addRow key row obj = obj_modify key (addTo row) (obj_put key emptyMetrics obj)"
    by (simp add: addRow_def prop_truthy_def obj_assign_def)
  moreover have "map_of (obj_put key emptyMetrics obj) key = Some emptyMetrics"
    by (simp add: map_of_obj_put)
  ultimately show ?thesis
    using sum_obj_modify [of "obj_put key emptyMetrics obj" key emptyMetrics f "addTo row" "F row"]
      sum_obj_put_new [OF None, of f emptyMetrics] step empty
    by simp
next
  case (Some s)
  then have "addRow key row obj = obj_modify key (addTo row) obj"
    by (simp add: addRow_def prop_truthy_def)
  then show ?thesis
    using sum_obj_modify [OF Some, of f "addTo row" "F row"] step by simp
qed

lemma sum_stage_loop:
  fixes f :: "StageMetrics \<Rightarrow> jsnum"
  assumes "\<forall>row \<in> set rows. \<not> inherited (AutomationStage row)"
    and "\<And>row s. f (addTo row s) = f s + F row"
    and "f emptyMetrics = 0"
  shows "sum_list (map (\<lambda>e. f (snd e))
           (foldl (\<lambda>stages row. addRow (AutomationStage row) row stages) acc rows))
         = sum_list (map (\<lambda>e. f (snd e)) acc) + sum_list (map F rows)"
  using assms(1)
proof (induction rows arbitrary: acc)
  case Nil
  then show ?case by simp
next
  case (Cons row rows)
  then show ?case
    using sum_addRow [of "AutomationStage row" f row F acc] assms(2,3)
    by (simp add: add.assoc)
qed

lemma sum_breakdown:
  fixes f :: "StageMetrics \<Rightarrow> jsnum"
  assumes "\<forall>row \<in> set rows. \<not> inherited (AutomationStage row)"
    and "\<And>row s. f (addTo row s) = f s + F row"
    and "f emptyMetrics = 0"
    and "\<And>s. f (withAvg s) = f s"
  shows "stageSum f (calculateStageBreakdown rows) = foldl (\<lambda>sum row. sum + F row) 0 rows"
proof -
  have "sum_list (map (\<lambda>e. f (snd e)) (calculateStageBreakdown rows))
          = sum_list (map (\<lambda>e. f (snd e))
              (foldl (\<lambda>stages row. addRow (AutomationStage row) row stages) [] rows))"
    by (simp add: calculateStageBreakdown_def comp_def split_def assms(4))
  also have "\<dots> = sum_list (map F rows)"
    using sum_stage_loop [OF assms(1-3), of "[]"] by simp
  finally show ?thesis
    by (simp add: stageSum_sum_list foldl_plus_sum_list)
qed

text \<open>
  For every sequence of processed records none of whose stage names is a property name
  inherited from \<^verbatim>\<open>Object.prototype\<close>, the per-stage invites, clicks, plays and play
  time summed over the stages of the breakdown equal the community totals.
\<close>

lemma stage_sums_equal_totals:
  assumes "\<forall>row \<in> set communityData. \<not> inherited (AutomationStage row)"
  shows "stageSum invites (stageBreakdown (calculateCommunityMetrics communityData))
           = totalInvites (calculateCommunityMetrics communityData)
         \<and> stageSum clicks (stageBreakdown (calculateCommunityMetrics communityData))
           = totalClicks (calculateCommunityMetrics communityData)
         \<and> stageSum plays (stageBreakdown (calculateCommunityMetrics communityData))
           = totalPlays (calculateCommunityMetrics communityData)
         \<and> stageSum playTime (stageBreakdown (calculateCommunityMetrics communityData))
           = totalPlayTime (calculateCommunityMetrics communityData)"
proof -
  have "stageSum invites (calculateStageBreakdown communityData)
          = foldl (\<lambda>sum row. sum + Invites row) 0 communityData"
    by (rule sum_breakdown [OF assms]) (simp_all add: addTo_def emptyMetrics_def withAvg_def)
  moreover have "stageSum clicks (calculateStageBreakdown communityData)
          = foldl (\<lambda>sum row. sum + Clicks row) 0 communityData"
    by (rule sum_breakdown [OF assms]) (simp_all add: addTo_def emptyMetrics_def withAvg_def)
  moreover have "stageSum plays (calculateStageBreakdown communityData)
          = foldl (\<lambda>sum row. sum + Plays row) 0 communityData"
    by (rule sum_breakdown [OF assms]) (simp_all add: addTo_def emptyMetrics_def withAvg_def)
  moreover have "stageSum playTime (calculateStageBreakdown communityData)
          = foldl (\<lambda>sum row. sum + PlayTimeMin row) 0 communityData"
    by (rule sum_breakdown [OF assms]) (simp_all add: addTo_def emptyMetrics_def withAvg_def)
  ultimately show ?thesis
    by (simp add: calculateCommunityMetrics_def Let_def)
qed

text \<open>
  Claim C7 at the input of one record whose stage is named \<^verbatim>\<open>constructor\<close>: the read
  \<^verbatim>\<open>stages['constructor']\<close> yields the inherited function, no own entry is created,
  the breakdown is empty and its sums are 0, while the community totals count the record.
\<close>

theorem stage_sums_inherited_name:
  "stageBreakdown (calculateCommunityMetrics (preprocessData refHost [constructorRow])) = []
   \<and> stageSum invites
       (stageBreakdown (calculateCommunityMetrics (preprocessData refHost [constructorRow]))) = Fin 0
   \<and> totalInvites (calculateCommunityMetrics (preprocessData refHost [constructorRow])) = Fin 100
   \<and> stageSum plays
       (stageBreakdown (calculateCommunityMetrics (preprocessData refHost [constructorRow]))) = Fin 0
   \<and> totalPlays (calculateCommunityMetrics (preprocessData refHost [constructorRow])) = Fin 40"
  by code_simp

section \<open>Monthly trends\<close>

lemma monthlyLoop_invalid:
  "\<exists>row \<in> set rows. TrackingDateFormatted row = InvalidDate \<Longrightarrow>
   monthlyLoop h rows acc = Inl RangeError"
proof (induction rows arbitrary: acc)
  case Nil
  then show ?case by simp
next
  case (Cons row rows)
  show ?case
  proof (cases "TrackingDateFormatted row")
    case InvalidDate
    then show ?thesis by simp
  next
    case (ValidDate t)
    with Cons.prems have "\<exists>r \<in> set rows. TrackingDateFormatted r = InvalidDate"
      by auto
    then show ?thesis
      using ValidDate by (simp add: Cons.IH)
  qed
qed

lemma monthlyLoop_valid:
  "\<forall>row \<in> set rows. TrackingDateFormatted row \<noteq> InvalidDate \<Longrightarrow>
   \<exists>months. monthlyLoop h rows acc = Inr months"
proof (induction rows arbitrary: acc)
  case Nil
  then show ?case by simp
next
  case (Cons row rows)
  then obtain t where "TrackingDateFormatted row = ValidDate t"
    by (cases "TrackingDateFormatted row") auto
  with Cons show ?case
    by simp
qed

text \<open>
  Claim C2, as amended. For every input containing a record whose tracking-date text
  does not parse as a date, the monthly-key extraction in \<^verbatim>\<open>calculateMonthlyTrends\<close>
  raises a RangeError (from \<^verbatim>\<open>toISOString\<close> on the invalid date), no bucket key is
  produced, and \<^verbatim>\<open>analyze\<close> raises the same error to its caller.
\<close>

theorem unparsable_date_raises:
  assumes "\<exists>row \<in> set data. Date_parse h (TrackingDateFormatted row) = InvalidDate"
  shows "calculateMonthlyTrends h (preprocessData h data) = Inl RangeError
         \<and> analyze h data = Inl RangeError"
proof -
  from assms have "\<exists>row \<in> set (preprocessData h data). TrackingDateFormatted row = InvalidDate"
    by (auto simp: preprocessData_def preprocessRow_def)
  then have "monthlyLoop h (preprocessData h data) [] = Inl RangeError"
    by (rule monthlyLoop_invalid)
  then have "calculateMonthlyTrends h (preprocessData h data) = Inl RangeError"
    by (simp add: calculateMonthlyTrends_def)
  then show ?thesis
    by (simp add: analyze_def Let_def)
qed

theorem unparsable_date_raises_witness:
  "Date_parse refHost (TrackingDateFormatted month0Row) = InvalidDate
   \<and> calculateMonthlyTrends refHost (preprocessData refHost [scenarioRow, month0Row]) = Inl RangeError
   \<and> analyze refHost [scenarioRow, month0Row] = Inl RangeError"
proof -
  have bad: "Date_parse refHost (TrackingDateFormatted month0Row) = InvalidDate"
    by code_simp
  then have "\<exists>row \<in> set [scenarioRow, month0Row].
               Date_parse refHost (TrackingDateFormatted row) = InvalidDate"
    by simp
  from unparsable_date_raises [OF this] bad show ?thesis
    by simp
qed

theorem unparsable_date_counterexample:
  "Date_parse refHost (TrackingDateFormatted month13Row) = InvalidDate
   \<and> calculateMonthlyTrends refHost (preprocessData refHost [month13Row]) = Inl RangeError
   \<and> analyze refHost [month13Row] = Inl RangeError"
  by code_simp

section \<open>Insight rules\<close>

lemma msg_distinct:
  "strongMsg h a \<noteq> opportunityMsg h b" "strongMsg h a \<noteq> watchTimeMsg h b"
  "strongMsg h a \<noteq> strongestMsg s" "opportunityMsg h a \<noteq> watchTimeMsg h b"
  "opportunityMsg h a \<noteq> strongestMsg s" "watchTimeMsg h a \<noteq> strongestMsg s"
  "opportunityMsg h b \<noteq> strongMsg h a" "watchTimeMsg h b \<noteq> strongMsg h a"
  "strongestMsg s \<noteq> strongMsg h a" "watchTimeMsg h b \<noteq> opportunityMsg h a"
  "strongestMsg s \<noteq> opportunityMsg h a" "strongestMsg s \<noteq> watchTimeMsg h a"
  by (simp_all add: strongMsg_def opportunityMsg_def watchTimeMsg_def strongestMsg_def)

text \<open>
  Claim C5, as amended. For every CommunityMetrics value whose stage breakdown has at
  least one stage, \<^verbatim>\<open>generateInsights\<close> returns a sequence that holds the
  strong-initial-engagement message iff clickRate > 50, the opportunity-to-improve
  message iff clickRate < 30, neither of them when clickRate lies in [30, 50], and the
  excellent-watch-time message iff avgPlayTime > 5; the messages stand in that rule
  order, before the strongest-performance message.
\<close>

theorem insight_rules:
  assumes "Object_entries (stageBreakdown m) \<noteq> []"
  shows "\<exists>msgs stage.
           generateInsights h m = Inr msgs
           \<and> msgs = (if js_gt (clickRate m) (Fin 50) then [strongMsg h (clickRate m)]
                     else if js_lt (clickRate m) (Fin 30) then [opportunityMsg h (clickRate m)]
                     else [])
                    @ (if js_gt (avgPlayTime m) (Fin 5) then [watchTimeMsg h (avgPlayTime m)] else [])
                    @ [strongestMsg stage]
           \<and> (strongMsg h (clickRate m) \<in> set msgs) = js_gt (clickRate m) (Fin 50)
           \<and> (opportunityMsg h (clickRate m) \<in> set msgs) = js_lt (clickRate m) (Fin 30)
           \<and> (watchTimeMsg h (avgPlayTime m) \<in> set msgs) = js_gt (avgPlayTime m) (Fin 5)"
proof -
  from assms obtain e es where entries: "Object_entries (stageBreakdown m) = e # es"
    by (cases "Object_entries (stageBreakdown m)") auto
  define stage where "stage = fst (foldl better e es)"
  define msgs where "msgs =
    (if js_gt (clickRate m) (Fin 50) then [strongMsg h (clickRate m)]
     else if js_lt (clickRate m) (Fin 30) then [opportunityMsg h (clickRate m)]
     else [])
    @ (if js_gt (avgPlayTime m) (Fin 5) then [watchTimeMsg h (avgPlayTime m)] else [])
    @ [strongestMsg stage]"
  have run: "generateInsights h m = Inr msgs"
    by (simp add: generateInsights_def reduce1_def entries msgs_def stage_def)
  have strong: "(strongMsg h (clickRate m) \<in> set msgs) = js_gt (clickRate m) (Fin 50)"
    by (simp add: msgs_def msg_distinct)
  have opp: "(opportunityMsg h (clickRate m) \<in> set msgs) = js_lt (clickRate m) (Fin 30)"
    using lt30_not_gt50 [of "clickRate m"] by (auto simp: msgs_def msg_distinct)
  have watch: "(watchTimeMsg h (avgPlayTime m) \<in> set msgs) = js_gt (avgPlayTime m) (Fin 5)"
    by (simp add: msgs_def msg_distinct)
  from run strong opp watch show ?thesis
    unfolding msgs_def by blast
qed

theorem insight_rules_witness:
  "Object_entries (stageBreakdown boundaryMetrics) \<noteq> []
   \<and> (\<exists>stage. generateInsights refHost boundaryMetrics = Inr [strongestMsg stage])"
proof -
  have entries: "Object_entries (stageBreakdown boundaryMetrics) \<noteq> []"
    by code_simp
  have rates: "clickRate boundaryMetrics = Fin 30" "avgPlayTime boundaryMetrics = Fin 3"
    by (simp_all add: boundaryMetrics_def)
  from insight_rules [OF entries, of refHost] entries show ?thesis
    unfolding rates by (auto simp: js_gt_def)
qed

theorem insight_rules_counterexample:
  "js_gt (clickRate noStageMetrics) (Fin 50)
   \<and> generateInsights refHost noStageMetrics = Inl TypeError"
  by code_simp

section \<open>The strongest stage\<close>

lemma foldl_better_split:
  assumes "\<forall>x \<in> set (b # xs). isFinite (plays (snd x))"
  shows "\<exists>pre post. b # xs = pre @ foldl better b xs # post
           \<and> (\<forall>x \<in> set pre. js_lt (plays (snd x)) (plays (snd (foldl better b xs))))
           \<and> (\<forall>x \<in> set post. \<not> js_gt (plays (snd x)) (plays (snd (foldl better b xs))))"
  using assms
proof (induction xs rule: rev_induct)
  case Nil
  have "[b] = [] @ b # []" by simp
  then show ?case by force
next
  case (snoc x xs)
  let ?best = "foldl better b xs"
  from snoc obtain pre post where split: "b # xs = pre @ ?best # post"
    and before: "\<forall>y \<in> set pre. js_lt (plays (snd y)) (plays (snd ?best))"
    and after: "\<forall>y \<in> set post. \<not> js_gt (plays (snd y)) (plays (snd ?best))"
    by auto
  from snoc.prems have fin: "\<forall>y \<in> set (b # xs). isFinite (plays (snd y))"
    by auto
  have best_in: "?best \<in> set (b # xs)"
    unfolding split by simp
  show ?case
  proof (cases "js_gt (plays (snd x)) (plays (snd ?best))")
    case True
    then have new: "foldl better b (xs @ [x]) = x"
      by (simp add: better_def)
    from True have lt: "js_lt (plays (snd ?best)) (plays (snd x))"
      by (simp add: js_gt_def)
    have "\<forall>y \<in> set (b # xs). js_lt (plays (snd y)) (plays (snd x))"
    proof
      fix y assume y: "y \<in> set (b # xs)"
      then consider "y \<in> set pre" | "y = ?best" | "y \<in> set post"
        unfolding split by auto
      then show "js_lt (plays (snd y)) (plays (snd x))"
      proof cases
        case 1
        with before lt show ?thesis by (blast intro: js_lt_trans)
      next
        case 2
        with lt show ?thesis by simp
      next
        case 3
        with after have "\<not> js_gt (plays (snd y)) (plays (snd ?best))" by blast
        moreover from fin y best_in have "isFinite (plays (snd y))" "isFinite (plays (snd ?best))"
          by blast+
        ultimately show ?thesis
          using lt by (blast intro: js_not_gt_lt_trans)
      qed
    qed
    moreover have "b # xs @ [x] = (b # xs) @ x # []"
      by simp
    ultimately show ?thesis
      unfolding new by (metis empty_iff list.set(1))
  next
    case False
    then have same: "foldl better b (xs @ [x]) = ?best"
      by (simp add: better_def)
    have "b # xs @ [x] = pre @ ?best # (post @ [x])"
      using split by simp
    moreover have "\<forall>y \<in> set (post @ [x]). \<not> js_gt (plays (snd y)) (plays (snd ?best))"
      using after False by auto
    ultimately show ?thesis
      unfolding same using before by blast
  qed
qed

lemma length_addRow: "length obj \<le> length (addRow key row obj)"
  using length_obj_put [of obj key emptyMetrics]
  by (simp add: addRow_def length_obj_modify obj_assign_def)

lemma addRow_nonempty:
  assumes "\<not> inherited key"
  shows "addRow key row obj \<noteq> []"
proof (cases "map_of obj key")
  case None
  from assms have "key \<noteq> ''__proto__''"
    by (auto simp: inherited_def Object_prototype_names_def)
  with None assms have "addRow key row obj = obj_modify key (addTo row) (obj_put key emptyMetrics obj)"
    by (simp add: addRow_def prop_truthy_def obj_assign_def)
  then have "length (addRow key row obj) = length (obj_put key emptyMetrics obj)"
    by (simp add: length_obj_modify)
  then show ?thesis
    using obj_put_nonempty [of key emptyMetrics obj] by auto
next
  case (Some s)
  then have "obj \<noteq> []" by auto
  then show ?thesis
    using length_addRow [of obj key row] by auto
qed

lemma stage_loop_keeps_nonempty:
  "acc \<noteq> [] \<Longrightarrow> foldl (\<lambda>stages row. addRow (AutomationStage row) row stages) acc rows \<noteq> []"
proof (induction rows arbitrary: acc)
  case Nil
  then show ?case by simp
next
  case (Cons row rows)
  from Cons.prems have "addRow (AutomationStage row) row acc \<noteq> []"
    using length_addRow [of acc "AutomationStage row" row] by auto
  then show ?case
    by (simp add: Cons.IH)
qed

lemma breakdown_nonempty:
  assumes "rows \<noteq> []" and "\<not> inherited (AutomationStage (hd rows))"
  shows "calculateStageBreakdown rows \<noteq> []"
proof -
  from assms(1) obtain row rest where rows: "rows = row # rest"
    by (cases rows) auto
  with assms(2) have "addRow (AutomationStage row) row [] \<noteq> []"
    by (simp add: addRow_nonempty)
  then have "foldl (\<lambda>stages row. addRow (AutomationStage row) row stages) [] rows \<noteq> []"
    unfolding rows by (simp add: stage_loop_keeps_nonempty)
  then show ?thesis
    by (simp add: calculateStageBreakdown_def)
qed

lemma addRow_finite_plays:
  assumes "\<forall>e \<in> set obj. isFinite (plays (snd e))" and "isFinite (Plays row)"
  shows "\<forall>e \<in> set (addRow key row obj). isFinite (plays (snd e))"
proof -
  have "isFinite (plays emptyMetrics)"
    by (simp add: emptyMetrics_def zero_jsnum_def)
  with assms(1) have "\<forall>e \<in> set (obj_assign key emptyMetrics obj). isFinite (plays (snd e))"
    using obj_put_all [of obj "\<lambda>s. isFinite (plays s)" emptyMetrics key]
    by (simp add: obj_assign_def)
  with assms(1) have "\<forall>e \<in> set (if \<not> prop_truthy obj key then obj_assign key emptyMetrics obj else obj).
                        isFinite (plays (snd e))"
    by simp
  moreover have "\<And>s. isFinite (plays s) \<Longrightarrow> isFinite (plays (addTo row s))"
    using assms(2) by (simp add: addTo_def isFinite_add)
  ultimately show ?thesis
    unfolding addRow_def Let_def by (rule obj_modify_all)
qed

lemma stage_loop_finite_plays:
  assumes "\<forall>row \<in> set rows. isFinite (Plays row)" and "\<forall>e \<in> set acc. isFinite (plays (snd e))"
  shows "\<forall>e \<in> set (foldl (\<lambda>stages row. addRow (AutomationStage row) row stages) acc rows).
           isFinite (plays (snd e))"
  using assms
proof (induction rows arbitrary: acc)
  case Nil
  then show ?case by simp
next
  case (Cons row rows)
  from Cons.prems have "\<forall>e \<in> set (addRow (AutomationStage row) row acc). isFinite (plays (snd e))"
    by (intro addRow_finite_plays) auto
  with Cons.prems show ?case
    by (simp add: Cons.IH)
qed

lemma breakdown_finite_plays:
  assumes "\<forall>row \<in> set rows. isFinite (Plays row)"
  shows "\<forall>e \<in> set (calculateStageBreakdown rows). isFinite (plays (snd e))"
  using stage_loop_finite_plays [OF assms, of "[]"]
  by (auto simp: calculateStageBreakdown_def withAvg_def)

lemma isStrongestMsg_simps:
  "isStrongestMsg (strongestMsg s)" "\<not> isStrongestMsg (strongMsg h a)"
  "\<not> isStrongestMsg (opportunityMsg h a)" "\<not> isStrongestMsg (watchTimeMsg h a)"
  by (simp_all add: isStrongestMsg_def strongestMsg_def strongMsg_def opportunityMsg_def
      watchTimeMsg_def)

text \<open>
  For every non-empty sequence of processed records none of whose stage names is
  inherited from \<^verbatim>\<open>Object.prototype\<close> and whose plays are finite,
  \<^verbatim>\<open>generateInsights\<close> returns a sequence with exactly one strongest-performance
  message, the last one; it names an entry of the breakdown that has strictly more plays
  than every entry iterated before it and that no later entry exceeds.
\<close>

lemma strongest_stage_message:
  assumes nonempty: "communityData \<noteq> []"
    and names: "\<forall>row \<in> set communityData. \<not> inherited (AutomationStage row)"
    and finite: "\<forall>row \<in> set communityData. isFinite (Plays row)"
  shows "\<exists>msgs pre best post.
           generateInsights h (calculateCommunityMetrics communityData) = Inr msgs
           \<and> Object_entries (stageBreakdown (calculateCommunityMetrics communityData))
               = pre @ best # post
           \<and> (\<forall>x \<in> set pre. js_lt (plays (snd x)) (plays (snd best)))
           \<and> (\<forall>x \<in> set post. \<not> js_gt (plays (snd x)) (plays (snd best)))
           \<and> filter isStrongestMsg msgs = [strongestMsg (fst best)]
           \<and> last msgs = strongestMsg (fst best)"
proof -
  let ?m = "calculateCommunityMetrics communityData"
  have bd: "stageBreakdown ?m = calculateStageBreakdown communityData"
    by (simp add: calculateCommunityMetrics_def Let_def)
  from nonempty names have "calculateStageBreakdown communityData \<noteq> []"
    by (intro breakdown_nonempty) (auto simp: neq_Nil_conv)
  then have "Object_entries (stageBreakdown ?m) \<noteq> []"
    using length_Object_entries [of "stageBreakdown ?m"] bd by auto
  then obtain e es where entries: "Object_entries (stageBreakdown ?m) = e # es"
    by (cases "Object_entries (stageBreakdown ?m)") auto
  have "\<forall>x \<in> set (e # es). isFinite (plays (snd x))"
    using breakdown_finite_plays [OF finite] set_Object_entries [of "stageBreakdown ?m"]
    unfolding entries [symmetric] bd by simp
  from foldl_better_split [OF this] obtain pre post where
    split: "e # es = pre @ foldl better e es # post"
    and before: "\<forall>x \<in> set pre. js_lt (plays (snd x)) (plays (snd (foldl better e es)))"
    and after: "\<forall>x \<in> set post. \<not> js_gt (plays (snd x)) (plays (snd (foldl better e es)))"
    by blast
  define msgs where "msgs =
    (if js_gt (clickRate ?m) (Fin 50) then [strongMsg h (clickRate ?m)]
     else if js_lt (clickRate ?m) (Fin 30) then [opportunityMsg h (clickRate ?m)]
     else [])
    @ (if js_gt (avgPlayTime ?m) (Fin 5) then [watchTimeMsg h (avgPlayTime ?m)] else [])
    @ [strongestMsg (fst (foldl better e es))]"
  have run: "generateInsights h ?m = Inr msgs"
    by (simp add: generateInsights_def reduce1_def entries msgs_def)
  have one: "filter isStrongestMsg msgs = [strongestMsg (fst (foldl better e es))]"
    by (simp add: msgs_def isStrongestMsg_simps)
  have final: "last msgs = strongestMsg (fst (foldl better e es))"
    by (simp add: msgs_def)
  from run split before after one final show ?thesis
    unfolding entries by blast
qed

text \<open>
  Claim C4 at the input of one record whose stage is named \<^verbatim>\<open>toString\<close>: the
  breakdown has no own entry, \<^verbatim>\<open>reduce\<close> is called on the empty array without an
  initial value, and \<^verbatim>\<open>generateInsights\<close> (and with it \<^verbatim>\<open>analyze\<close>) raises a TypeError
  instead of returning a sequence with the strongest-performance message.
\<close>

theorem strongest_message_inherited_name:
  "generateInsights refHost (calculateCommunityMetrics (preprocessData refHost [toStringRow]))
     = Inl TypeError
   \<and> analyze refHost [toStringRow] = Inl TypeError"
  by code_simp

section \<open>Strategies\<close>

text \<open>
  Claim C6. For every CommunityMetrics value, \<^verbatim>\<open>generateStrategies\<close> returns the
  Improve Initial Engagement strategy iff clickRate < 40, the Increase Play Rate
  strategy iff playRate < 70 and the Extend Watch Time strategy iff avgPlayTime < 3
  (strict comparisons); each rule contributes at most one strategy, with its fixed
  focus label and four fixed actions, the output follows this rule order, and metrics
  that trigger no rule give the empty sequence.
\<close>

theorem generateStrategies_rules:
  "generateStrategies m =
     (if js_lt (clickRate m) (Fin 40) then [improveInitialEngagement] else [])
     @ (if js_lt (playRate m) (Fin 70) then [increasePlayRate] else [])
     @ (if js_lt (avgPlayTime m) (Fin 3) then [extendWatchTime] else [])
   \<and> (improveInitialEngagement \<in> set (generateStrategies m)) = js_lt (clickRate m) (Fin 40)
   \<and> (increasePlayRate \<in> set (generateStrategies m)) = js_lt (playRate m) (Fin 70)
   \<and> (extendWatchTime \<in> set (generateStrategies m)) = js_lt (avgPlayTime m) (Fin 3)
   \<and> distinct (generateStrategies m)
   \<and> list_all (\<lambda>s. length (actions s) = 4) (generateStrategies m)
   \<and> map focus [improveInitialEngagement, increasePlayRate, extendWatchTime]
       = [''Improve Initial Engagement'', ''Increase Play Rate'', ''Extend Watch Time'']"
  by (simp add: generateStrategies_def improveInitialEngagement_def increasePlayRate_def
      extendWatchTime_def)

theorem generateStrategies_rules_witness:
  "generateStrategies boundaryMetrics = [improveInitialEngagement]
   \<and> extendWatchTime \<notin> set (generateStrategies boundaryMetrics)
   \<and> extendWatchTime \<in> set (generateStrategies (boundaryMetrics\<lparr> avgPlayTime := Fin 2.999 \<rparr>))
   \<and> generateStrategies noStageMetrics = [increasePlayRate]"
  using generateStrategies_rules [of boundaryMetrics]
    generateStrategies_rules [of "boundaryMetrics\<lparr> avgPlayTime := Fin 2.999 \<rparr>"]
    generateStrategies_rules [of noStageMetrics]
  by (simp add: boundaryMetrics_def noStageMetrics_def improveInitialEngagement_def
      increasePlayRate_def extendWatchTime_def)

section \<open>The report\<close>

text \<open>
  Claim C10. For the empty input record sequence, \<^verbatim>\<open>analyze\<close> raises no error and
  returns a report whose communityInsights, followUpStrategies and monthlyTrends are
  all empty; only analysisDate is populated, with the first ten characters of the ISO
  text of the clock.
\<close>

theorem analyze_empty:
  "analyze h [] =
     Inr \<lparr> communityInsights = [], followUpStrategies = [], monthlyTrends = [],
           analysisDate = take 10 (isoFormat h (now h)) \<rparr>"
  by (simp add: analyze_def preprocessData_def Set_of_def calculateMonthlyTrends_def)

theorem analyze_empty_witness:
  "analyze refHost [] =
     Inr \<lparr> communityInsights = [], followUpStrategies = [], monthlyTrends = [],
           analysisDate = ''2024-03-01'' \<rparr>"
proof -
  have "take 10 (isoFormat refHost (now refHost)) = ''2024-03-01''"
    by code_simp
  then show ?thesis
    using analyze_empty [of refHost] by simp
qed

lemma set_Set_of_acc: "set (foldl Set_add acc xs) = set acc \<union> set xs"
  by (induction xs arbitrary: acc) (auto simp: Set_add_def)

lemma set_Set_of: "set (Set_of xs) = set xs"
  by (simp add: Set_of_def set_Set_of_acc)

lemma generateInsights_returns:
  assumes "communityData \<noteq> []" and "\<not> inherited (AutomationStage (hd communityData))"
  shows "\<exists>msgs. generateInsights h (calculateCommunityMetrics communityData) = Inr msgs"
proof -
  let ?m = "calculateCommunityMetrics communityData"
  have "stageBreakdown ?m = calculateStageBreakdown communityData"
    by (simp add: calculateCommunityMetrics_def Let_def)
  with breakdown_nonempty [OF assms] have "Object_entries (stageBreakdown ?m) \<noteq> []"
    using length_Object_entries [of "stageBreakdown ?m"] by auto
  then obtain e es where "Object_entries (stageBreakdown ?m) = e # es"
    by (cases "Object_entries (stageBreakdown ?m)") auto
  then show ?thesis
    by (simp add: generateInsights_def reduce1_def Let_def)
qed

lemma communityLoop_returns:
  assumes "\<forall>row \<in> set processedData. \<not> inherited (AutomationStage row)"
    and "set communities \<subseteq> Community ` set processedData"
  shows "\<exists>tables. communityLoop h processedData communities acc = Inr tables"
  using assms(2)
proof (induction communities arbitrary: acc)
  case Nil
  then show ?case by simp
next
  case (Cons community rest)
  obtain ci fs where acc: "acc = (ci, fs)"
    by (cases acc)
  let ?communityData = "filter (\<lambda>row. Community row = community) processedData"
  from Cons.prems have nonempty: "?communityData \<noteq> []"
    by (auto simp: filter_empty_conv)
  have "hd ?communityData \<in> set ?communityData"
    by (rule hd_in_set [OF nonempty])
  then have "hd ?communityData \<in> set processedData"
    using filter_is_subset [of "\<lambda>row. Community row = community" processedData] by blast
  with assms(1) have "\<not> inherited (AutomationStage (hd ?communityData))"
    by blast
  from generateInsights_returns [OF nonempty this, of h] obtain msgs where
    "generateInsights h (calculateCommunityMetrics ?communityData) = Inr msgs"
    by blast
  moreover from Cons.prems have "set rest \<subseteq> Community ` set processedData"
    by auto
  ultimately show ?case
    unfolding acc using Cons.IH by (simp add: Let_def)
qed

text \<open>
  \<^verbatim>\<open>analyze\<close> returns a report for every input in which every tracking date parses
  and no stage name is a property name inherited from \<^verbatim>\<open>Object.prototype\<close>.
\<close>

lemma analyze_returns:
  assumes dates: "\<forall>row \<in> set data. Date_parse h (TrackingDateFormatted row) \<noteq> InvalidDate"
    and names: "\<forall>row \<in> set data. \<not> inherited (AutomationStage row)"
  shows "\<exists>report. analyze h data = Inr report"
proof -
  let ?pd = "preprocessData h data"
  from dates have "\<forall>row \<in> set ?pd. TrackingDateFormatted row \<noteq> InvalidDate"
    by (auto simp: preprocessData_def preprocessRow_def)
  from monthlyLoop_valid [OF this, of h "[]"] obtain trends where
    trends: "calculateMonthlyTrends h ?pd = Inr trends"
    by (auto simp: calculateMonthlyTrends_def)
  from names have "\<forall>row \<in> set ?pd. \<not> inherited (AutomationStage row)"
    by (auto simp: preprocessData_def preprocessRow_def)
  moreover have "set (Set_of (map Community ?pd)) \<subseteq> Community ` set ?pd"
    by (simp add: set_Set_of)
  ultimately obtain tables where
    "communityLoop h ?pd (Set_of (map Community ?pd)) ([], []) = Inr tables"
    using communityLoop_returns by blast
  with trends show ?thesis
    by (cases tables) (simp add: analyze_def Let_def)
qed

section \<open>The numeric literals of the reference conversion\<close>

text \<open>
  The reference conversion reads a text by cutting it at the exponent indicator and at
  the point; the literals of the grammar are recognised by scanning digits from the
  left. The two agree: each reader of the conversion fails exactly on the texts that
  the corresponding recogniser refuses.
\<close>

lemma isDigit_iff: "isDigit c = (48 \<le> (of_char c :: int) \<and> (of_char c :: int) \<le> 57)"
  by (simp add: isDigit_def digitVal_def Let_def)

lemma radixDigit_10: "(radixDigit 10 c \<noteq> None) = isDigit c"
  by (auto simp: radixDigit_def isDigit_iff Let_def split: if_splits)

lemma radixDigit_16: "(radixDigit 16 c \<noteq> None) = isHexDigit c"
  by (auto simp: radixDigit_def isHexDigit_def Let_def split: if_splits)

lemma radixDigit_8: "(radixDigit 8 c \<noteq> None) = isOctalDigit c"
  by (auto simp: radixDigit_def isOctalDigit_def Let_def split: if_splits)

lemma radixDigit_2: "(radixDigit 2 c \<noteq> None) = isBinaryDigit c"
proof -
  have "(of_char c :: int) = 48 \<longleftrightarrow> c = CHR ''0''" "(of_char c :: int) = 49 \<longleftrightarrow> c = CHR ''1''"
    using of_char_eq_iff [of c "CHR ''0''", where ?'a = int]
      of_char_eq_iff [of c "CHR ''1''", where ?'a = int] by simp_all
  then show ?thesis
    by (auto simp: radixDigit_def isBinaryDigit_def Let_def split: if_splits)
qed


lemma radixDigit_Some:
  "(\<exists>y. radixDigit 10 c = Some y) = isDigit c"
  "(\<exists>y. radixDigit 16 c = Some y) = isHexDigit c"
  "(\<exists>y. radixDigit 8 c = Some y) = isOctalDigit c"
  "(\<exists>y. radixDigit 2 c = Some y) = isBinaryDigit c"
  using radixDigit_10 [of c] radixDigit_16 [of c] radixDigit_8 [of c] radixDigit_2 [of c]
  by simp_all

lemma radixValue_None:
  "(radixValue base s = None) = (s = [] \<or> \<not> list_all (\<lambda>c. radixDigit base c \<noteq> None) s)"
  by (simp add: radixValue_def)

lemma radixValue_10_None: "(radixValue 10 s = None) = (\<not> isDecimalDigits s)"
  by (simp add: radixValue_None isDecimalDigits_def radixDigit_Some)

lemma nonDecimalLiteral_None: "(nonDecimalLiteral s = None) = (\<not> isNonDecimalIntegerLiteral s)"
proof (cases s)
  case Nil
  then show ?thesis
    by (simp add: nonDecimalLiteral_def isNonDecimalIntegerLiteral_def)
next
  case outer: (Cons c0 r)
  show ?thesis
  proof (cases r)
    case Nil
    with outer show ?thesis
      by (simp add: nonDecimalLiteral_def isNonDecimalIntegerLiteral_def)
  next
    case (Cons c1 ds)
    with outer show ?thesis
      by (simp add: nonDecimalLiteral_def isNonDecimalIntegerLiteral_def radixValue_None
          radixDigit_Some)
  qed
qed

lemma exponentValue_None:
  "(exponentValue (d # ds) = None) =
     (\<not> (if d \<in> set ''+-'' then isDecimalDigits ds else isDecimalDigits (d # ds)))"
  by (simp add: exponentValue_def radixValue_10_None)

lemma exponentValue_Nil: "exponentValue [] = None"
  by (simp add: exponentValue_def)


lemma isDigit_not_special:
  "isDigit c \<Longrightarrow> c \<noteq> CHR ''e'' \<and> c \<noteq> CHR ''E'' \<and> c \<noteq> CHR ''.''"
  by (auto simp: isDigit_iff)

lemma isExponentPart_Cons:
  "isExponentPart (c # t) = ((c = CHR ''e'' \<or> c = CHR ''E'') \<and> exponentValue t \<noteq> None)"
proof (cases t)
  case Nil
  then show ?thesis
    by (simp add: isExponentPart_def exponentValue_Nil)
next
  case (Cons d ds)
  have "(exponentValue (d # ds) \<noteq> None)
          = (if d \<in> set ''+-'' then isDecimalDigits ds else isDecimalDigits (d # ds))"
    by (simp only: exponentValue_None not_not)
  with Cons show ?thesis
    by (simp add: isExponentPart_def)
qed

lemma frac_scan:
  "(list_all isDigit (takeWhile (\<lambda>c. c \<noteq> CHR ''e'' \<and> c \<noteq> CHR ''E'') t)
    \<and> (b \<or> takeWhile (\<lambda>c. c \<noteq> CHR ''e'' \<and> c \<noteq> CHR ''E'') t \<noteq> [])
    \<and> (dropWhile (\<lambda>c. c \<noteq> CHR ''e'' \<and> c \<noteq> CHR ''E'') t = []
       \<or> exponentValue (tl (dropWhile (\<lambda>c. c \<noteq> CHR ''e'' \<and> c \<noteq> CHR ''E'') t)) \<noteq> None))
   = ((b \<or> takeWhile isDigit t \<noteq> [])
      \<and> (dropWhile isDigit t = [] \<or> isExponentPart (dropWhile isDigit t)))"
proof (induction t arbitrary: b)
  case Nil
  then show ?case by simp
next
  case (Cons c t)
  consider (digit) "isDigit c" | (exp) "c = CHR ''e'' \<or> c = CHR ''E''"
    | (other) "\<not> isDigit c" "c \<noteq> CHR ''e''" "c \<noteq> CHR ''E''"
    by blast
  then show ?case
  proof cases
    case digit
    with isDigit_not_special [of c] Cons.IH [of True] show ?thesis
      by simp
  next
    case exp
    then have "\<not> isDigit c"
      by (auto simp: isDigit_iff)
    with exp show ?thesis
      by (auto simp: isExponentPart_Cons)
  next
    case other
    then show ?thesis
      by (simp add: isExponentPart_Cons)
  qed
qed


lemma decimal_scan:
  "(list_all isDigit (takeWhile (\<lambda>c. c \<noteq> CHR ''.'') (takeWhile (\<lambda>c. c \<noteq> CHR ''e'' \<and> c \<noteq> CHR ''E'') s))
    \<and> list_all isDigit (tl (dropWhile (\<lambda>c. c \<noteq> CHR ''.'') (takeWhile (\<lambda>c. c \<noteq> CHR ''e'' \<and> c \<noteq> CHR ''E'') s)))
    \<and> (if dropWhile (\<lambda>c. c \<noteq> CHR ''.'') (takeWhile (\<lambda>c. c \<noteq> CHR ''e'' \<and> c \<noteq> CHR ''E'') s) = []
       then b \<or> takeWhile (\<lambda>c. c \<noteq> CHR ''.'') (takeWhile (\<lambda>c. c \<noteq> CHR ''e'' \<and> c \<noteq> CHR ''E'') s) \<noteq> []
       else b \<or> takeWhile (\<lambda>c. c \<noteq> CHR ''.'') (takeWhile (\<lambda>c. c \<noteq> CHR ''e'' \<and> c \<noteq> CHR ''E'') s) @ tl (dropWhile (\<lambda>c. c \<noteq> CHR ''.'') (takeWhile (\<lambda>c. c \<noteq> CHR ''e'' \<and> c \<noteq> CHR ''E'') s)) \<noteq> [])
    \<and> (dropWhile (\<lambda>c. c \<noteq> CHR ''e'' \<and> c \<noteq> CHR ''E'') s = [] \<or> exponentValue (tl (dropWhile (\<lambda>c. c \<noteq> CHR ''e'' \<and> c \<noteq> CHR ''E'') s)) \<noteq> None))
   = (case dropWhile isDigit s of
        [] \<Rightarrow> b \<or> takeWhile isDigit s \<noteq> []
      | c # r \<Rightarrow>
          if c = CHR ''.''
          then (b \<or> takeWhile isDigit s @ takeWhile isDigit r \<noteq> [])
               \<and> (dropWhile isDigit r = [] \<or> isExponentPart (dropWhile isDigit r))
          else (b \<or> takeWhile isDigit s \<noteq> []) \<and> isExponentPart (dropWhile isDigit s))"
proof (induction s arbitrary: b)
  case Nil
  then show ?case by simp
next
  case (Cons c s)
  let ?A = "\<lambda>s b. (list_all isDigit (takeWhile (\<lambda>c. c \<noteq> CHR ''.'') (takeWhile (\<lambda>c. c \<noteq> CHR ''e'' \<and> c \<noteq> CHR ''E'') s))
    \<and> list_all isDigit (tl (dropWhile (\<lambda>c. c \<noteq> CHR ''.'') (takeWhile (\<lambda>c. c \<noteq> CHR ''e'' \<and> c \<noteq> CHR ''E'') s)))
    \<and> (if dropWhile (\<lambda>c. c \<noteq> CHR ''.'') (takeWhile (\<lambda>c. c \<noteq> CHR ''e'' \<and> c \<noteq> CHR ''E'') s) = []
       then b \<or> takeWhile (\<lambda>c. c \<noteq> CHR ''.'') (takeWhile (\<lambda>c. c \<noteq> CHR ''e'' \<and> c \<noteq> CHR ''E'') s) \<noteq> []
       else b \<or> takeWhile (\<lambda>c. c \<noteq> CHR ''.'') (takeWhile (\<lambda>c. c \<noteq> CHR ''e'' \<and> c \<noteq> CHR ''E'') s) @ tl (dropWhile (\<lambda>c. c \<noteq> CHR ''.'') (takeWhile (\<lambda>c. c \<noteq> CHR ''e'' \<and> c \<noteq> CHR ''E'') s)) \<noteq> [])
    \<and> (dropWhile (\<lambda>c. c \<noteq> CHR ''e'' \<and> c \<noteq> CHR ''E'') s = [] \<or> exponentValue (tl (dropWhile (\<lambda>c. c \<noteq> CHR ''e'' \<and> c \<noteq> CHR ''E'') s)) \<noteq> None))"
  let ?S = "\<lambda>s b. (case dropWhile isDigit s of
        [] \<Rightarrow> b \<or> takeWhile isDigit s \<noteq> []
      | c # r \<Rightarrow>
          if c = CHR ''.''
          then (b \<or> takeWhile isDigit s @ takeWhile isDigit r \<noteq> [])
               \<and> (dropWhile isDigit r = [] \<or> isExponentPart (dropWhile isDigit r))
          else (b \<or> takeWhile isDigit s \<noteq> []) \<and> isExponentPart (dropWhile isDigit s))"
  consider (digit) "isDigit c" | (point) "c = CHR ''.''"
    | (exp) "c = CHR ''e'' \<or> c = CHR ''E''"
    | (other) "\<not> isDigit c" "c \<noteq> CHR ''.''" "c \<noteq> CHR ''e''" "c \<noteq> CHR ''E''"
    by blast
  then show ?case
  proof cases
    case digit
    have A: "?A (c # s) b = ?A s True"
      using digit isDigit_not_special [of c] by simp
    have S: "?S (c # s) b = ?S s True"
      using digit by (cases "dropWhile isDigit s") (simp_all del: dropWhile_eq_Nil_conv)
    from A S Cons.IH [of True] show ?thesis
      by (simp only:)
  next
    case point
    then have "\<not> isDigit c"
      by (simp add: isDigit_iff)
    with point frac_scan [of s b] show ?thesis
      by simp
  next
    case exp
    then have "\<not> isDigit c" "c \<noteq> CHR ''.''"
      by (auto simp: isDigit_iff)
    with exp show ?thesis
      by (auto simp: isExponentPart_Cons)
  next
    case other
    then show ?thesis
      by (simp add: isExponentPart_Cons)
  qed
qed

lemma decimalValue_None:
  "(decimalValue s = None)
   = (\<not> (case dropWhile isDigit s of
        [] \<Rightarrow> takeWhile isDigit s \<noteq> []
      | c # r \<Rightarrow>
          if c = CHR ''.''
          then takeWhile isDigit s @ takeWhile isDigit r \<noteq> []
               \<and> (dropWhile isDigit r = [] \<or> isExponentPart (dropWhile isDigit r))
          else takeWhile isDigit s \<noteq> [] \<and> isExponentPart (dropWhile isDigit s)))"
proof -
  let ?A = "\<lambda>s b. (list_all isDigit (takeWhile (\<lambda>c. c \<noteq> CHR ''.'') (takeWhile (\<lambda>c. c \<noteq> CHR ''e'' \<and> c \<noteq> CHR ''E'') s))
    \<and> list_all isDigit (tl (dropWhile (\<lambda>c. c \<noteq> CHR ''.'') (takeWhile (\<lambda>c. c \<noteq> CHR ''e'' \<and> c \<noteq> CHR ''E'') s)))
    \<and> (if dropWhile (\<lambda>c. c \<noteq> CHR ''.'') (takeWhile (\<lambda>c. c \<noteq> CHR ''e'' \<and> c \<noteq> CHR ''E'') s) = []
       then b \<or> takeWhile (\<lambda>c. c \<noteq> CHR ''.'') (takeWhile (\<lambda>c. c \<noteq> CHR ''e'' \<and> c \<noteq> CHR ''E'') s) \<noteq> []
       else b \<or> takeWhile (\<lambda>c. c \<noteq> CHR ''.'') (takeWhile (\<lambda>c. c \<noteq> CHR ''e'' \<and> c \<noteq> CHR ''E'') s) @ tl (dropWhile (\<lambda>c. c \<noteq> CHR ''.'') (takeWhile (\<lambda>c. c \<noteq> CHR ''e'' \<and> c \<noteq> CHR ''E'') s)) \<noteq> [])
    \<and> (dropWhile (\<lambda>c. c \<noteq> CHR ''e'' \<and> c \<noteq> CHR ''E'') s = [] \<or> exponentValue (tl (dropWhile (\<lambda>c. c \<noteq> CHR ''e'' \<and> c \<noteq> CHR ''E'') s)) \<noteq> None))"
  have "(decimalValue s = None) = (\<not> ?A s False)"
    unfolding decimalValue_def Let_def
    by (cases "dropWhile (\<lambda>c. c \<noteq> CHR ''e'' \<and> c \<noteq> CHR ''E'') s = []") (auto split: option.splits)
  also have "?A s False = (case dropWhile isDigit s of
        [] \<Rightarrow> False \<or> takeWhile isDigit s \<noteq> []
      | c # r \<Rightarrow>
          if c = CHR ''.''
          then (False \<or> takeWhile isDigit s @ takeWhile isDigit r \<noteq> [])
               \<and> (dropWhile isDigit r = [] \<or> isExponentPart (dropWhile isDigit r))
          else (False \<or> takeWhile isDigit s \<noteq> []) \<and> isExponentPart (dropWhile isDigit s))"
    by (rule decimal_scan)
  finally show ?thesis
    by (cases "dropWhile isDigit s") (simp_all split: if_splits del: dropWhile_eq_Nil_conv)
qed

lemma unsignedDecimal_None:
  "(unsignedDecimal s = None) = (\<not> isStrUnsignedDecimalLiteral s)"
  unfolding unsignedDecimal_def isStrUnsignedDecimalLiteral_def Let_def
  by (cases "s = ''Infinity''") (simp_all only: decimalValue_None if_True if_False simp_thms option.simps option.map_disc_iff)

lemma strDecimalLiteral_None:
  "(strDecimalLiteral s = None) = (\<not> isStrDecimalLiteral s)"
  by (cases s) (simp_all add: strDecimalLiteral_def isStrDecimalLiteral_def unsignedDecimal_None)

section \<open>The CSV ingestor's field coercion\<close>

lemma js_neg_not_NaN: "\<not> isNaN x \<Longrightarrow> \<not> isNaN (js_neg x)"
  by (cases x) simp_all

lemma unsignedDecimal_not_NaN: "unsignedDecimal s = Some x \<Longrightarrow> \<not> isNaN x"
  by (auto simp: unsignedDecimal_def split: if_splits)

lemma strDecimalLiteral_not_NaN:
  assumes "strDecimalLiteral s = Some x"
  shows "\<not> isNaN x"
proof (cases s)
  case Nil
  with assms show ?thesis
    by (simp add: strDecimalLiteral_def)
next
  case (Cons c r)
  with assms consider "unsignedDecimal r = Some x"
    | y where "unsignedDecimal r = Some y" "x = js_neg y"
    | "unsignedDecimal s = Some x"
    by (auto simp: strDecimalLiteral_def split: if_splits)
  then show ?thesis
    by cases (auto dest: unsignedDecimal_not_NaN simp: js_neg_not_NaN)
qed

text \<open>
  The reference conversion gives NaN exactly on the texts that are neither blank nor a
  numeric literal of the grammar, and 0 on the blank ones.
\<close>

lemma refStringToNumber_NaN:
  "isNaN (refStringToNumber s) = (trim s \<noteq> [] \<and> \<not> parsesFullyAsNumber s)"
proof (cases "trim s = []")
  case True
  then show ?thesis
    by (simp add: refStringToNumber_def zero_jsnum_def)
next
  case False
  show ?thesis
  proof (cases "nonDecimalLiteral (trim s)")
    case (Some n)
    then have "isNonDecimalIntegerLiteral (trim s)"
      using nonDecimalLiteral_None [of "trim s"] by simp
    with False Some show ?thesis
      by (simp add: refStringToNumber_def parsesFullyAsNumber_def)
  next
    case None
    then have non: "\<not> isNonDecimalIntegerLiteral (trim s)"
      using nonDecimalLiteral_None [of "trim s"] by simp
    show ?thesis
    proof (cases "strDecimalLiteral (trim s)")
      case (Some v)
      then have "isStrDecimalLiteral (trim s)"
        using strDecimalLiteral_None [of "trim s"] by simp
      with False None Some strDecimalLiteral_not_NaN [OF Some] show ?thesis
        by (simp add: refStringToNumber_def parsesFullyAsNumber_def)
    next
      case inner: None
      then have "\<not> isStrDecimalLiteral (trim s)"
        using strDecimalLiteral_None [of "trim s"] by simp
      with False None inner non show ?thesis
        by (simp add: refStringToNumber_def parsesFullyAsNumber_def)
    qed
  qed
qed

lemma refStringToNumber_blank: "trim s = [] \<Longrightarrow> refStringToNumber s = 0"
  by (simp add: refStringToNumber_def)

text \<open>
  The value assigned for the header at position \<open>i\<close> is the one the row object holds
  under that header, when no later header has the same name and the name is not
  \<^verbatim>\<open>__proto__\<close>; the returned record holds it too when the header is one of its keys.
\<close>

lemma map_of_obj_assign:
  "k \<noteq> ''__proto__'' \<Longrightarrow>
   map_of (obj_assign k v obj) k' = (if k' = k then Some v else map_of obj k')"
  by (simp add: obj_assign_def map_of_obj_put)

lemma map_of_obj_assign_other: "k' \<noteq> k \<Longrightarrow> map_of (obj_assign k v obj) k' = map_of obj k'"
  by (simp add: obj_assign_def map_of_obj_put)

lemma assign_loop_other:
  "k \<notin> set hs \<Longrightarrow>
   map_of (foldl (\<lambda>obj (header, j). obj_assign header (f j) obj) acc (zip hs js)) k = map_of acc k"
proof (induction hs arbitrary: acc js)
  case Nil
  then show ?case by simp
next
  case (Cons x xs)
  then show ?case
    by (cases js) (simp_all add: map_of_obj_assign_other)
qed

lemma assign_loop_lookup:
  assumes "i < length hs" and "hs ! i \<notin> set (drop (Suc i) hs)" and "hs ! i \<noteq> ''__proto__''"
  shows "map_of (foldl (\<lambda>obj (header, j). obj_assign header (f j) obj) acc
                   (zip hs [n ..< n + length hs])) (hs ! i) = Some (f (n + i))"
  using assms
proof (induction hs arbitrary: acc n i)
  case Nil
  then show ?case by simp
next
  case (Cons x xs)
  have upt: "[n ..< n + length (x # xs)] = n # [Suc n ..< Suc n + length xs]"
    by (subst upt_rec) simp
  show ?case
  proof (cases i)
    case 0
    with Cons.prems have "x \<notin> set xs" "x \<noteq> ''__proto__''"
      by auto
    then show ?thesis
      unfolding upt 0 by (simp add: assign_loop_other map_of_obj_assign)
  next
    case (Suc i')
    with Cons.prems have "i' < length xs" "xs ! i' \<notin> set (drop (Suc i') xs)"
      "xs ! i' \<noteq> ''__proto__''"
      by auto
    from Cons.IH [OF this, of _ "Suc n"] show ?thesis
      unfolding upt Suc by simp
  qed
qed

lemma rowObject_stores_cell:
  assumes "i < length headers" and "headers ! i \<notin> set (drop (Suc i) headers)"
    and "headers ! i \<noteq> ''__proto__''"
  shows "map_of (rowObject h headers line) (headers ! i) = Some (cell h (fieldValues line) i)"
  using assign_loop_lookup [OF assms, of "cell h (fieldValues line)" "[]" 0]
  by (simp add: rowObject_def)

lemma map_of_keyed: "k \<in> set ks \<Longrightarrow> map_of (map (\<lambda>k. (k, f k)) ks) k = Some (f k)"
  by (induction ks) auto

lemma parseLine_lookup:
  "k \<in> set recordKeys \<Longrightarrow>
   map_of (parseLine h headers line) k = Some (obj_get (rowObject h headers line) k)"
  by (simp add: parseLine_def map_of_keyed)

text \<open>
  Claim C8, as amended. For every field value produced by the ingestor's
  comma-split-and-strip step, under a header that no later header repeats and that is
  not \<^verbatim>\<open>__proto__\<close>, the value stored in the row object, and in the returned record
  when the header is one of its seven keys, is the number \<^verbatim>\<open>Number(text)\<close> when that is
  not NaN and the unchanged text otherwise. On every runtime whose \<^verbatim>\<open>Number\<close> gives NaN
  exactly on the texts that are neither blank nor a numeric literal, the field is stored
  as a number if and only if its text is blank (empty or white space only) or parses
  fully as a number, and is kept as text otherwise; a blank text is stored as the
  number 0 on every runtime whose \<^verbatim>\<open>Number\<close> gives 0 on blank texts.
\<close>

theorem field_coercion:
  assumes "i < length headers" and "i < length (fieldValues line)"
    and "headers ! i \<notin> set (drop (Suc i) headers)" and "headers ! i \<noteq> ''__proto__''"
  shows "map_of (rowObject h headers line) (headers ! i) =
           Some (if isNaN (StringToNumber h (fieldValues line ! i))
                 then JString (fieldValues line ! i)
                 else JNumber (StringToNumber h (fieldValues line ! i)))
         \<and> (headers ! i \<in> set recordKeys \<longrightarrow>
              map_of (parseLine h headers line) (headers ! i) =
                map_of (rowObject h headers line) (headers ! i))
         \<and> ((\<forall>s. isNaN (StringToNumber h s) = (trim s \<noteq> [] \<and> \<not> parsesFullyAsNumber s)) \<longrightarrow>
              ((\<exists>n. map_of (rowObject h headers line) (headers ! i) = Some (JNumber n))
                 = (trim (fieldValues line ! i) = [] \<or> parsesFullyAsNumber (fieldValues line ! i)))
              \<and> ((map_of (rowObject h headers line) (headers ! i) = Some (JString (fieldValues line ! i)))
                 = (trim (fieldValues line ! i) \<noteq> [] \<and> \<not> parsesFullyAsNumber (fieldValues line ! i))))
         \<and> ((\<forall>s. trim s = [] \<longrightarrow> StringToNumber h s = 0) \<longrightarrow>
              trim (fieldValues line ! i) = [] \<longrightarrow>
              map_of (rowObject h headers line) (headers ! i) = Some (JNumber 0))"
proof -
  let ?v = "fieldValues line ! i"
  have stored: "map_of (rowObject h headers line) (headers ! i) =
                  Some (if isNaN (StringToNumber h ?v) then JString ?v
                        else JNumber (StringToNumber h ?v))"
    using rowObject_stores_cell [OF assms(1,3,4), of h line] assms(2)
    by (simp add: cell_def coerceField_def)
  have returned: "map_of (parseLine h headers line) (headers ! i) =
                    map_of (rowObject h headers line) (headers ! i)"
    if "headers ! i \<in> set recordKeys"
    using parseLine_lookup [OF that, of h headers line] stored
    by (simp add: obj_get_def)
  have grammar: "((\<exists>n. map_of (rowObject h headers line) (headers ! i) = Some (JNumber n))
                    = (trim ?v = [] \<or> parsesFullyAsNumber ?v))
                 \<and> ((map_of (rowObject h headers line) (headers ! i) = Some (JString ?v))
                    = (trim ?v \<noteq> [] \<and> \<not> parsesFullyAsNumber ?v))"
    if "\<forall>s. isNaN (StringToNumber h s) = (trim s \<noteq> [] \<and> \<not> parsesFullyAsNumber s)"
  proof -
    from that have "isNaN (StringToNumber h ?v) = (trim ?v \<noteq> [] \<and> \<not> parsesFullyAsNumber ?v)"
      by blast
    then show ?thesis
      unfolding stored by (cases "isNaN (StringToNumber h ?v)") simp_all
  qed
  have blank: "map_of (rowObject h headers line) (headers ! i) = Some (JNumber 0)"
    if "\<forall>s. trim s = [] \<longrightarrow> StringToNumber h s = 0" and "trim ?v = []"
  proof -
    from that have "StringToNumber h ?v = 0"
      by blast
    then show ?thesis
      unfolding stored by (simp add: zero_jsnum_def)
  qed
  from stored returned grammar blank show ?thesis
    by blast
qed


theorem field_coercion_witness:
  "1 < length csvHeaders \<and> 1 < length (fieldValues csvLine)
   \<and> csvHeaders ! 1 \<notin> set (drop (Suc 1) csvHeaders) \<and> csvHeaders ! 1 \<noteq> ''__proto__''
   \<and> csvHeaders ! 1 = ''Invites'' \<and> csvHeaders ! 1 \<in> set recordKeys
   \<and> (\<forall>s. isNaN (StringToNumber refHost s) = (trim s \<noteq> [] \<and> \<not> parsesFullyAsNumber s))
   \<and> (\<forall>s. StringToNumber refHost s = 0 \<or> trim s \<noteq> [])
   \<and> fieldValues csvLine = [''A'', ''12.5'', ''S 1'', [CHR 0xA0, CHR ''7''], [], ''x'']
   \<and> parsesFullyAsNumber ''12.5''
   \<and> map_of (rowObject refHost csvHeaders csvLine) ''Invites'' = Some (JNumber (Fin 12.5))
   \<and> map_of (parseLine refHost csvHeaders csvLine) ''Invites'' = Some (JNumber (Fin 12.5))
   \<and> \<not> parsesFullyAsNumber ''S 1''
   \<and> map_of (parseLine refHost csvHeaders csvLine) ''Automation Stage'' = Some (JString ''S 1'')
   \<and> parsesFullyAsNumber [CHR 0xA0, CHR ''7'']
   \<and> map_of (parseLine refHost csvHeaders csvLine) ''Plays'' = Some (JNumber (Fin 7))
   \<and> map_of (parseLine refHost csvHeaders csvLine) ''Clicks'' = Some (JNumber (Fin 0))"
proof -
  have fields: "fieldValues csvLine = [''A'', ''12.5'', ''S 1'', [CHR 0xA0, CHR ''7''], [], ''x'']"
    by code_simp
  have keys: "csvHeaders ! 1 = ''Invites''" "csvHeaders ! 2 = ''Automation Stage''"
    "csvHeaders ! 3 = ''Plays''" "csvHeaders ! 4 = ''Clicks''"
    by (simp_all add: csvHeaders_def)
  have inKeys: "''Invites'' \<in> set recordKeys" "''Automation Stage'' \<in> set recordKeys"
    "''Plays'' \<in> set recordKeys" "''Clicks'' \<in> set recordKeys"
    by (simp_all add: recordKeys_def)
  have nan: "\<forall>s. isNaN (StringToNumber refHost s) = (trim s \<noteq> [] \<and> \<not> parsesFullyAsNumber s)"
    by (simp add: refHost_def refStringToNumber_NaN)
  have blank: "\<forall>s. trim s = [] \<longrightarrow> StringToNumber refHost s = 0"
    by (simp add: refHost_def refStringToNumber_blank)
  have nums: "StringToNumber refHost ''12.5'' = Fin 12.5" "StringToNumber refHost ''S 1'' = NaN"
    "StringToNumber refHost [CHR 0xA0, CHR ''7''] = Fin 7"
    by code_simp+
  have parses: "parsesFullyAsNumber ''12.5''" "\<not> parsesFullyAsNumber ''S 1''"
    "parsesFullyAsNumber [CHR 0xA0, CHR ''7'']" "trim [] = []"
    by code_simp+
  have len: "1 < length csvHeaders" "2 < length csvHeaders" "3 < length csvHeaders"
    "4 < length csvHeaders"
    by (simp_all add: csvHeaders_def)
  have lenv: "1 < length (fieldValues csvLine)" "2 < length (fieldValues csvLine)"
    "3 < length (fieldValues csvLine)" "4 < length (fieldValues csvLine)"
    by (simp_all add: fields)
  have later: "csvHeaders ! 1 \<notin> set (drop (Suc 1) csvHeaders)"
    "csvHeaders ! 2 \<notin> set (drop (Suc 2) csvHeaders)"
    "csvHeaders ! 3 \<notin> set (drop (Suc 3) csvHeaders)"
    "csvHeaders ! 4 \<notin> set (drop (Suc 4) csvHeaders)"
    by (simp_all add: csvHeaders_def)
  have proto: "csvHeaders ! 1 \<noteq> ''__proto__''" "csvHeaders ! 2 \<noteq> ''__proto__''"
    "csvHeaders ! 3 \<noteq> ''__proto__''" "csvHeaders ! 4 \<noteq> ''__proto__''"
    by (simp_all add: csvHeaders_def)
  from field_coercion [OF len(1) lenv(1) later(1) proto(1), of refHost]
  have invites: "map_of (rowObject refHost csvHeaders csvLine) ''Invites'' = Some (JNumber (Fin 12.5))"
    "map_of (parseLine refHost csvHeaders csvLine) ''Invites'' = Some (JNumber (Fin 12.5))"
    by (simp_all add: csvHeaders_def inKeys fields nums)
  from field_coercion [OF len(2) lenv(2) later(2) proto(2), of refHost]
  have stage: "map_of (parseLine refHost csvHeaders csvLine) ''Automation Stage'' = Some (JString ''S 1'')"
    by (simp add: csvHeaders_def inKeys fields nums)
  from field_coercion [OF len(3) lenv(3) later(3) proto(3), of refHost]
  have plays: "map_of (parseLine refHost csvHeaders csvLine) ''Plays'' = Some (JNumber (Fin 7))"
    by (simp add: csvHeaders_def inKeys fields nums)
  from field_coercion [OF len(4) lenv(4) later(4) proto(4), of refHost] blank
  have clicks: "map_of (parseLine refHost csvHeaders csvLine) ''Clicks'' = Some (JNumber (Fin 0))"
    by (simp add: csvHeaders_def inKeys fields parses zero_jsnum_def)
  from blank have blank': "\<forall>s. StringToNumber refHost s = 0 \<or> trim s \<noteq> []"
    by blast
  from len(1) lenv(1) later(1) proto(1) keys(1) inKeys(1) nan blank' fields parses(1,2,3)
    invites stage plays clicks
  show ?thesis
    by (simp only: simp_thms)
qed

theorem field_coercion_counterexample:
  "fieldValues ''A,,100'' ! 1 = []
   \<and> \<not> parsesFullyAsNumber (fieldValues ''A,,100'' ! 1)
   \<and> parseCSV refHost (''Community,Automation Stage,Invites'' @ [CHR 0x0A] @ ''A,,100'')
       = [[(''Tracking Date Formatted'', JUndefined), (''Invites'', JNumber (Fin 100)),
           (''Clicks'', JUndefined), (''Plays'', JUndefined), (''Play Time (Min)'', JUndefined),
           (''Automation Stage'', JNumber (Fin 0)), (''Community'', JString ''A'')]]"
  by code_simp

section \<open>The specification's scenario\<close>

text \<open>
  The one-row scenario of the specification, run through the whole analyzer with the
  reference runtime: click rate 60, play rate 66.66..., average play time 5, the
  strong-engagement and strongest-stage messages and no watch-time message.
\<close>

lemma scenario_report:
  "analyze refHost [scenarioRow] =
     Inr \<lparr> communityInsights =
             [(''A'',
               \<lparr> metrics =
                   \<lparr> totalInvites = Fin 100, totalClicks = Fin 60, totalPlays = Fin 40,
                     totalPlayTime = Fin 200, clickRate = Fin 60, playRate = Fin (200 / 3),
                     avgPlayTime = Fin 5,
                     stageBreakdown =
                       [(''S1'', \<lparr> invites = Fin 100, clicks = Fin 60, plays = Fin 40,
                                    playTime = Fin 200, count = Fin 1,
                                    stageAvgPlayTime = Some (Fin 5) \<rparr>)] \<rparr>,
                 insights = [''Strong initial engagement with 60.0% click rate'',
                             ''Strongest performance in S1 stage''] \<rparr>)],
           followUpStrategies = [(''A'', [increasePlayRate])],
           monthlyTrends =
             [(''2024-01'', \<lparr> invites = Fin 100, clicks = Fin 60, plays = Fin 40,
                               playTime = Fin 200, count = Fin 1,
                               stageAvgPlayTime = Some (Fin 5) \<rparr>)],
           analysisDate = ''2024-03-01'' \<rparr>"
  by code_simp

end
